theory Spec2Isabelle
  imports Main "HOL-Library.Word"
begin

section \<open>The page-flip handler of the DRM display (drmpagefliphandler.cpp)\<close>

text \<open>
  The handler \<open>DrmPageFlipHandler\<close> is embedded as a record of its member variables and
  each member function as a function from the record to the updated record. 32-bit
  unsigned members are \<open>32 word\<close>, the nanosecond timestamps (\<open>nsecs_t\<close>) are \<open>64 word\<close>.
  Pointers to frames (\<open>mpLastFlippedFrame\<close>, \<open>mpCurrentFrame\<close>) are \<open>Frame option\<close>,
  \<open>NULL\<close> being \<open>None\<close>. Calls into the display and the option manager are effects on
  the fields \<open>mDisplay\<close> and \<open>options\<close>; \<open>ETRACE\<close> error messages are appended to \<open>etrace\<close>.
  Debug-only traces (\<open>DTRACEIF\<close>, \<open>Log::alogd\<close>, \<open>ATRACE\<close>), the debug assertions
  (\<open>HWCASSERT\<close>) and \<open>validate\<close> have no effect on the state and are left out, as are
  \<open>startupDisplay\<close> (it creates the operating system's sync object) and \<open>getStatusString\<close>.
  The \<open>int32_t\<close> member \<open>mMainPlaneIndex\<close> is kept as its 32 bits, \<open>-1\<close> being all ones.
\<close>

subsection \<open>Frames\<close>

type_synonym u32 = "32 word"
type_synonym nsecs_t = "64 word"

record FrameId =
  getTimelineIndex :: u32
  isValid :: bool
  getHwcReceivedTime :: nsecs_t

record SGlobalScalingConfig =
  mbEnabled :: bool
  mSrcW :: u32
  mSrcH :: u32

datatype Layer = Content nat | BlankingLayer u32 u32

record FrameLayer =
  isDisabled :: bool
  getLayer :: Layer

record Frame =
  getFrameId :: FrameId
  layers :: "FrameLayer list"
  getGlobalScaling :: SGlobalScalingConfig

subsection \<open>Timeline\<close>

text \<open>
  Modelled from the spec: the class \<open>Timeline\<close> (timeline.h, timeline.cpp) is not among the
  sources. The spec gives it two counters, \<open>current\<close> (the released point) and \<open>future\<close>
  (the next allocatable point), and the operations below: \<open>advanceTo n\<close> sets
  \<open>current\<close> to the maximum of \<open>current\<close> and \<open>n\<close> (a call with \<open>n < current\<close> is ignored
  in a release build), \<open>advance delta\<close> is \<open>advanceTo (current + delta)\<close>, \<open>createFence\<close>
  increments \<open>future\<close> and hands out the new point, \<open>repeatFence\<close> hands out the present
  \<open>future\<close> point without incrementing.
\<close>

record Timeline =
  current :: u32
  future :: u32

definition getCurrentTime :: "Timeline \<Rightarrow> u32" where
  "getCurrentTime t = current t"

definition getFutureTime :: "Timeline \<Rightarrow> u32" where
  "getFutureTime t = future t"

definition advanceTo :: "Timeline \<Rightarrow> u32 \<Rightarrow> Timeline" where
  "advanceTo t n = t\<lparr>current := max (current t) n\<rparr>"

definition advance :: "Timeline \<Rightarrow> u32 \<Rightarrow> Timeline" where
  "advance t delta = advanceTo t (current t + delta)"

definition createFence :: "Timeline \<Rightarrow> Timeline \<times> u32" where
  "createFence t = (t\<lparr>future := future t + 1\<rparr>, future t + 1)"

definition repeatFence :: "Timeline \<Rightarrow> Timeline \<times> u32" where
  "repeatFence t = (t, future t)"

subsection \<open>The display, the commit strategies and the handler\<close>

datatype PlaneType = PLANE_TYPE_MAIN | PLANE_TYPE_OTHER

text \<open>
  What the handler reads from and does to its \<open>DrmDisplay\<close>: the plane capabilities (one
  entry for each of the \<open>getNumPlanes\<close> planes), the
  results of the two static capability probes \<open>test\<close>, the applied mode size, the blanking
  layer allocated by \<open>allocateBlankingLayer\<close>, the frames handed back by
  \<open>releaseFlippedFrame\<close>, the number of \<open>notifyReady\<close> calls and the layers passed to
  \<open>legacySeamlessAdaptMode\<close>.
\<close>

record DrmDisplay =
  planeCaps :: "PlaneType list"
  nuclearTest :: bool
  setDisplayTest :: bool
  getAppliedWidth :: u32
  getAppliedHeight :: u32
  getBlankingLayer :: "Layer option"
  releasedFrames :: "Frame list"
  notifyReadyCalls :: nat
  seamlessAdaptCalls :: "Layer list"

datatype Impl = DrmLegacyPageFlipHandler | DrmNuclearPageFlipHandler | DrmSetDisplayPageFlipHandler

datatype trace =
    FlipCompletionTimeout
  | UnexpectedNotInitialised
  | UnexpectedNoOutstandingFlip
  | ForcingFlipCompletion FrameId
  | WaitFlipCompletionTimedOut

record DrmPageFlipHandler =
  mDisplay :: DrmDisplay
  mpImpl :: "Impl option"
  mbInit :: bool
  mNumPlanes :: u32
  mMainPlaneIndex :: u32
  mLastPageFlipTime :: nsecs_t
  mpLastFlippedFrame :: "Frame option"
  mpCurrentFrame :: "Frame option"
  mTimeline :: Timeline
  options :: "(string \<times> int) list"
  etrace :: "trace list"

text \<open>
  The preprocessor symbols that select code in the file. \<open>uncomment\<close> guards \<open>flip\<close>,
  \<open>retire\<close>, \<open>doRetire\<close> and the wait loop of \<open>waitForFlipCompletion\<close>; the other two
  guard the probes of the atomic strategies in \<open>init\<close>; the sources define none of the
  three. \<open>mTimeoutFlip\<close> is the constant
  of the class declaration (drmpagefliphandler.h, not among the sources) that
  \<open>readyForFlip\<close> compares the elapsed time with.
\<close>

record Build =
  uncomment :: bool
  HWC_USE_ATOMIC_NUCLEAR :: bool
  VPG_DRM_HAVE_ATOMIC_SETDISPLAY :: bool
  mTimeoutFlip :: u32

datatype error = NullFrame | WaitNeverReturns | NotCompiled

text \<open>
  Modelled from the spec: \<open>isOutstandingFlipWork\<close> is declared in drmpagefliphandler.h, which
  is not among the sources. The spec calls outstanding flip work a commit issued and not yet
  confirmed complete, and the handler holds such a commit as its pending frame; \<open>doSync\<close>
  asserts \<open>mpLastFlippedFrame\<close> when there is outstanding work.
\<close>

definition isOutstandingFlipWork :: "DrmPageFlipHandler \<Rightarrow> bool" where
  "isOutstandingFlipWork h = (mpLastFlippedFrame h \<noteq> None)"

text \<open>The constructor: no strategy, not initialised, no frames.\<close>

definition constructed :: "DrmDisplay \<Rightarrow> Timeline \<Rightarrow> (string \<times> int) list \<Rightarrow> DrmPageFlipHandler" where
  "constructed d t opts =
     \<lparr>mDisplay = d, mpImpl = None, mbInit = False, mNumPlanes = 0, mMainPlaneIndex = - 1,
      mLastPageFlipTime = 0, mpLastFlippedFrame = None, mpCurrentFrame = None,
      mTimeline = t, options = opts, etrace = []\<rparr>"

subsection \<open>Retiring frames and completing a flip\<close>

text \<open>
  \<open>retirePreviousFrames\<close>: for a frame with a valid id, \<open>releaseTo\<close> is the index minus one
  in \<open>uint32_t\<close>; otherwise, when the current frame has a valid id, \<open>advance\<close> is the
  difference of the two unsigned values read as \<open>int32_t\<close>, and the timeline advances by it
  when it is positive.
\<close>

definition retirePreviousFrames :: "DrmPageFlipHandler \<Rightarrow> Frame \<Rightarrow> DrmPageFlipHandler" where
  "retirePreviousFrames h pNewFrame =
     (if isValid (getFrameId pNewFrame) then
        (let releaseTo = getTimelineIndex (getFrameId pNewFrame) - 1
         in h\<lparr>mTimeline := advanceTo (mTimeline h) releaseTo\<rparr>)
      else
        (case mpCurrentFrame h of
           None \<Rightarrow> h
         | Some cur \<Rightarrow>
             if isValid (getFrameId cur) then
               (let currentFrameTime = getTimelineIndex (getFrameId cur);
                    currentTimeline = getCurrentTime (mTimeline h);
                    adv = currentFrameTime - currentTimeline
                in if 0 < sint adv
                   then h\<lparr>mTimeline := advance (mTimeline h) adv\<rparr>
                   else h)
             else h))"

definition releaseFlippedFrame :: "DrmDisplay \<Rightarrow> Frame \<Rightarrow> DrmDisplay" where
  "releaseFlippedFrame d f = d\<lparr>releasedFrames := releasedFrames d @ [f]\<rparr>"

definition notifyReady :: "DrmDisplay \<Rightarrow> DrmDisplay" where
  "notifyReady d = d\<lparr>notifyReadyCalls := Suc (notifyReadyCalls d)\<rparr>"

text \<open>
  \<open>completeFlip\<close> dereferences \<open>mpLastFlippedFrame\<close> (\<open>validate\<close>), so a null pointer there
  is the error \<open>NullFrame\<close>. It releases the current frame to the display, retires, promotes
  the flipped frame to current and clears the pending pointer.
\<close>

definition completeFlip :: "DrmPageFlipHandler \<Rightarrow> error + DrmPageFlipHandler" where
  "completeFlip h =
     (case mpLastFlippedFrame h of
        None \<Rightarrow> Inl NullFrame
      | Some flipped \<Rightarrow>
          (let h1 = (case mpCurrentFrame h of
                       None \<Rightarrow> h
                     | Some cur \<Rightarrow> h\<lparr>mDisplay := releaseFlippedFrame (mDisplay h) cur\<rparr>);
               h2 = retirePreviousFrames h1 flipped;
               h3 = h2\<lparr>mpCurrentFrame := Some flipped, mpLastFlippedFrame := None\<rparr>
           in Inr (h3\<lparr>mDisplay := notifyReady (mDisplay h3)\<rparr>)))"

subsection \<open>Initialisation\<close>

text \<open>
  The loop of \<open>init\<close> over the planes \<open>p = 0 ..< mNumPlanes\<close>: the index of the first plane
  of type \<open>PLANE_TYPE_MAIN\<close>, or \<open>-1\<close> when there is none.
\<close>

fun findMainPlane :: "PlaneType list \<Rightarrow> u32 \<Rightarrow> u32" where
  "findMainPlane [] p = - 1"
| "findMainPlane (t # ts) p = (if t = PLANE_TYPE_MAIN then p else findMainPlane ts (p + 1))"

text \<open>\<open>OptionManager::find\<close> and \<open>Option::set\<close> on the table of integer options.\<close>

definition optionFind :: "(string \<times> int) list \<Rightarrow> string \<Rightarrow> int option" where
  "optionFind opts name = map_of opts name"

definition optionSet :: "(string \<times> int) list \<Rightarrow> string \<Rightarrow> int \<Rightarrow> (string \<times> int) list" where
  "optionSet opts name v = map (\<lambda>(k, x). if k = name then (k, v) else (k, x)) opts"

definition init :: "Build \<Rightarrow> DrmPageFlipHandler \<Rightarrow> DrmPageFlipHandler" where
  "init b h =
     (if mbInit h then h
      else
        (let n = (of_nat (length (planeCaps (mDisplay h))) :: u32);
             main = findMainPlane (take (unat n) (planeCaps (mDisplay h))) 0;
             impl0 = (None :: Impl option);
             impl1 = (if HWC_USE_ATOMIC_NUCLEAR b \<and> impl0 = None \<and> nuclearTest (mDisplay h)
                      then Some DrmNuclearPageFlipHandler else impl0);
             impl2 = (if VPG_DRM_HAVE_ATOMIC_SETDISPLAY b \<and> impl1 = None \<and> setDisplayTest (mDisplay h)
                      then Some DrmSetDisplayPageFlipHandler else impl1);
             h1 = h\<lparr>mNumPlanes := n, mMainPlaneIndex := main\<rparr>;
             h2 = (if impl2 = None
                   then h1\<lparr>mpImpl := Some DrmLegacyPageFlipHandler,
                           options := (if optionFind (options h1) ''planealloc'' \<noteq> None
                                       then optionSet (options h1) ''planealloc'' 0
                                       else options h1)\<rparr>
                   else h1\<lparr>mpImpl := impl2\<rparr>)
         in h2\<lparr>mbInit := True\<rparr>))"

subsection \<open>Fences and release\<close>

definition registerNextFutureFrame :: "DrmPageFlipHandler \<Rightarrow> DrmPageFlipHandler \<times> u32" where
  "registerNextFutureFrame h =
     (let (t, idx) = createFence (mTimeline h) in (h\<lparr>mTimeline := t\<rparr>, idx))"

definition registerRepeatFutureFrame :: "DrmPageFlipHandler \<Rightarrow> DrmPageFlipHandler \<times> u32" where
  "registerRepeatFutureFrame h =
     (let (t, idx) = repeatFence (mTimeline h) in (h\<lparr>mTimeline := t\<rparr>, idx))"

definition releaseTo :: "DrmPageFlipHandler \<Rightarrow> u32 \<Rightarrow> DrmPageFlipHandler" where
  "releaseTo h timelineIndex = h\<lparr>mTimeline := advanceTo (mTimeline h) timelineIndex\<rparr>"

definition doRetire :: "DrmPageFlipHandler \<Rightarrow> Frame \<Rightarrow> DrmPageFlipHandler" where
  "doRetire h pNewFrame =
     (let releaseTo = getTimelineIndex (getFrameId pNewFrame)
      in h\<lparr>mTimeline := advanceTo (mTimeline h) releaseTo\<rparr>)"

definition retire :: "Build \<Rightarrow> DrmPageFlipHandler \<Rightarrow> Frame \<Rightarrow> error + DrmPageFlipHandler" where
  "retire b h pNewFrame = (if uncomment b then Inr (doRetire h pNewFrame) else Inl NotCompiled)"

subsection \<open>Completion events, polling and synchronisation\<close>

definition ETRACE :: "trace \<Rightarrow> DrmPageFlipHandler \<Rightarrow> DrmPageFlipHandler" where
  "ETRACE m h = h\<lparr>etrace := etrace h @ [m]\<rparr>"

definition pageFlipEvent :: "DrmPageFlipHandler \<Rightarrow> error + DrmPageFlipHandler" where
  "pageFlipEvent h =
     (if \<not> mbInit h then Inr (ETRACE UnexpectedNotInitialised h)
      else if \<not> isOutstandingFlipWork h then Inr (ETRACE UnexpectedNoOutstandingFlip h)
      else completeFlip h)"

text \<open>
  \<open>readyForFlip\<close> takes the value of \<open>systemTime\<close>. \<open>ela\<close> is the 64-bit difference cut to
  its low 32 bits by the cast to \<open>uint32_t\<close>.
\<close>

definition readyForFlip :: "Build \<Rightarrow> nsecs_t \<Rightarrow> DrmPageFlipHandler \<Rightarrow> error + (bool \<times> DrmPageFlipHandler)" where
  "readyForFlip b now h =
     (let r = (if isOutstandingFlipWork h then
                 (let ela = (ucast (now - mLastPageFlipTime h) :: u32)
                  in if ela > mTimeoutFlip b
                     then completeFlip (ETRACE FlipCompletionTimeout h)
                     else Inr h)
               else Inr h)
      in case r of
           Inl e \<Rightarrow> Inl e
         | Inr h' \<Rightarrow> Inr (\<not> isOutstandingFlipWork h', h'))"

text \<open>
  The wait loop of \<open>waitForFlipCompletion\<close> blocks in \<open>waitRelative\<close> on the condition that
  \<open>completeFlip\<close> broadcasts. What happens during one such wait is given by the caller as
  a pair: whether the event thread delivered a page flip event to this handler meanwhile
  (it then runs \<open>pageFlipEvent\<close>), and the status \<open>waitRelative\<close> returned. The list of
  these pairs is the schedule of the waits; when the loop needs a wait beyond the end of
  the schedule, it has not returned within it, which is the value \<open>WaitNeverReturns\<close>.
\<close>

datatype status_t = NO_ERROR | TIMED_OUT

type_synonym wait = "bool \<times> status_t"

fun waitLoop :: "wait list \<Rightarrow> DrmPageFlipHandler \<Rightarrow> error + (bool \<times> DrmPageFlipHandler)" where
  "waitLoop [] h = (if isOutstandingFlipWork h then Inl WaitNeverReturns else Inr (True, h))"
| "waitLoop ((ev, err) # ws) h =
     (if isOutstandingFlipWork h then
        (case (if ev then pageFlipEvent h else Inr h) of
           Inl e \<Rightarrow> Inl e
         | Inr h' \<Rightarrow>
             if err = TIMED_OUT then Inr (False, ETRACE WaitFlipCompletionTimedOut h')
             else waitLoop ws h')
      else Inr (True, h))"

definition waitForFlipCompletion ::
    "Build \<Rightarrow> wait list \<Rightarrow> DrmPageFlipHandler \<Rightarrow> error + (bool \<times> DrmPageFlipHandler)" where
  "waitForFlipCompletion b ws h = (if uncomment b then waitLoop ws h else Inr (True, h))"

definition doSync :: "Build \<Rightarrow> wait list \<Rightarrow> DrmPageFlipHandler \<Rightarrow> error + DrmPageFlipHandler" where
  "doSync b ws h =
     (if isOutstandingFlipWork h then
        (case waitForFlipCompletion b ws h of
           Inl e \<Rightarrow> Inl e
         | Inr (ok, h') \<Rightarrow>
             if \<not> ok then
               (if isOutstandingFlipWork h' then
                  (case mpLastFlippedFrame h' of
                     None \<Rightarrow> Inl NullFrame
                   | Some f \<Rightarrow> completeFlip (ETRACE (ForcingFlipCompletion (getFrameId f)) h'))
                else Inr h')
             else Inr h')
      else Inr h)"

definition sync :: "Build \<Rightarrow> wait list \<Rightarrow> DrmPageFlipHandler \<Rightarrow> error + DrmPageFlipHandler" where
  "sync b ws h = (if \<not> mbInit h then Inr h else doSync b ws h)"

text \<open>\<open>uninit\<close>; its \<open>HWCASSERT\<close> is a debug check and does not stop a release build.\<close>

definition uninit :: "Build \<Rightarrow> wait list \<Rightarrow> DrmPageFlipHandler \<Rightarrow> error + DrmPageFlipHandler" where
  "uninit b ws h =
     (if \<not> mbInit h then Inr h
      else case doSync b ws h of
             Inl e \<Rightarrow> Inl e
           | Inr h' \<Rightarrow> Inr (h'\<lparr>mpImpl := None, mbInit := False\<rparr>))"

subsection \<open>Flipping a frame\<close>

text \<open>
  Modelled from the spec: the classes of the frame and of the display are not among the
  sources. \<open>editLayer\<close> gives the layer entry of a plane, or null when the frame has none
  at that index; \<open>allocateBlankingLayer\<close> makes the display's blanking layer one of the
  given size; \<open>reset\<close> followed by \<open>set\<close> replaces the entry of the main plane by that
  blanking layer (the spec: the blanking buffer is substituted for the main layer).
\<close>

definition editLayer :: "Frame \<Rightarrow> u32 \<Rightarrow> FrameLayer option" where
  "editLayer f i = (if unat i < length (layers f) then Some (layers f ! unat i) else None)"

definition allocateBlankingLayer :: "DrmDisplay \<Rightarrow> u32 \<Rightarrow> u32 \<Rightarrow> DrmDisplay" where
  "allocateBlankingLayer d w ht = d\<lparr>getBlankingLayer := Some (BlankingLayer w ht)\<rparr>"

definition setLayer :: "Frame \<Rightarrow> u32 \<Rightarrow> Layer \<Rightarrow> Frame" where
  "setLayer f i l = f\<lparr>layers := (layers f)[unat i := \<lparr>isDisabled = False, getLayer = l\<rparr>]\<rparr>"

definition legacySeamlessAdaptMode :: "DrmDisplay \<Rightarrow> Layer \<Rightarrow> DrmDisplay" where
  "legacySeamlessAdaptMode d l = d\<lparr>seamlessAdaptCalls := seamlessAdaptCalls d @ [l]\<rparr>"

text \<open>
  The first block of \<open>flip\<close>: the main layer \<open>pMain\<close> (here: whether it is non-null),
  \<open>bMainBlanked\<close>, and the frame and display after the blanking layer has been primed.
\<close>

definition primeMain :: "DrmPageFlipHandler \<Rightarrow> Frame \<Rightarrow> DrmDisplay \<times> Frame \<times> bool \<times> bool" where
  "primeMain h pNewFrame =
     (let d = mDisplay h in
      if mMainPlaneIndex h \<noteq> - 1 then
        (case editLayer pNewFrame (mMainPlaneIndex h) of
           None \<Rightarrow> (d, pNewFrame, False, False)
         | Some pMain \<Rightarrow>
             if isDisabled pMain then
               (let gs = getGlobalScaling pNewFrame;
                    w = (if mbEnabled gs then mSrcW gs else getAppliedWidth d);
                    ht = (if mbEnabled gs then mSrcH gs else getAppliedHeight d);
                    d' = allocateBlankingLayer d w ht
                in (d', setLayer pNewFrame (mMainPlaneIndex h) (BlankingLayer w ht), True, True))
             else (d, pNewFrame, True, False))
      else (d, pNewFrame, False, False))"

text \<open>
  \<open>flip\<close> exists when \<open>uncomment\<close> is defined. \<open>doFlipResult\<close> is what the bound strategy's
  \<open>doFlip\<close> returns for this frame, \<open>now\<close> the value of \<open>systemTime\<close> after it, \<open>ws\<close> the
  schedule of the waits of \<open>doSync\<close>. \<open>flipSynced\<close> is the handler at the point where
  the strategy is called: after the blanking layer and \<open>doSync\<close>.
\<close>

definition flipSynced ::
    "Build \<Rightarrow> wait list \<Rightarrow> DrmPageFlipHandler \<Rightarrow> Frame \<Rightarrow> error + DrmPageFlipHandler" where
  "flipSynced b ws h pNewFrame =
     (case primeMain h pNewFrame of
        (d, f, pMain, bMainBlanked) \<Rightarrow> doSync b ws (h\<lparr>mDisplay := d\<rparr>))"

definition flipIssue ::
    "bool \<Rightarrow> nsecs_t \<Rightarrow> bool \<Rightarrow> u32 \<Rightarrow> Frame \<Rightarrow> DrmPageFlipHandler \<Rightarrow> bool \<times> DrmPageFlipHandler" where
  "flipIssue doFlipResult now pMain mainIndex f h1 =
     (let bFlipped = (mpImpl h1 \<noteq> None \<and> doFlipResult);
          h2 = (if bFlipped
                then h1\<lparr>mLastPageFlipTime := now, mpLastFlippedFrame := Some f\<rparr>
                else h1);
          h3 = (if pMain
                then (case editLayer f mainIndex of
                        None \<Rightarrow> h2
                      | Some l \<Rightarrow> h2\<lparr>mDisplay := legacySeamlessAdaptMode (mDisplay h2) (getLayer l)\<rparr>)
                else h2)
      in (bFlipped, h3))"

definition flip ::
    "Build \<Rightarrow> wait list \<Rightarrow> bool \<Rightarrow> nsecs_t \<Rightarrow> DrmPageFlipHandler \<Rightarrow> Frame
       \<Rightarrow> error + (bool \<times> DrmPageFlipHandler)" where
  "flip b ws doFlipResult now h pNewFrame =
     (if \<not> uncomment b then Inl NotCompiled
      else
        (case (if mbInit h then
                 (case primeMain h pNewFrame of
                    (d, f, pMain, bMainBlanked) \<Rightarrow>
                      (case flipSynced b ws h pNewFrame of
                         Inl e \<Rightarrow> Inl e
                       | Inr h1 \<Rightarrow>
                           (case flipIssue doFlipResult now pMain (mMainPlaneIndex h) f h1 of
                              (bFlipped, h3) \<Rightarrow> Inr (bFlipped, h3, f))))
               else Inr (False, h, pNewFrame)) of
           Inl e \<Rightarrow> Inl e
         | Inr (bFlipped, h', f) \<Rightarrow>
             Inr (bFlipped, if \<not> bFlipped then doRetire h' f else h')))"

subsection \<open>Sequences of calls\<close>

text \<open>
  The calls a handler receives, each with what its environment supplies (the clock, the
  strategy's result, the schedule of its waits), and their effect in order.
\<close>

datatype call =
    Init
  | Uninit "wait list"
  | RegisterNextFutureFrame
  | RegisterRepeatFutureFrame
  | ReleaseTo u32
  | ReadyForFlip nsecs_t
  | Flip Frame bool nsecs_t "wait list"
  | Retire Frame
  | PageFlipEvent
  | Sync "wait list"
  | CompleteFlip

fun step :: "Build \<Rightarrow> call \<Rightarrow> DrmPageFlipHandler \<Rightarrow> error + DrmPageFlipHandler" where
  "step b Init h = Inr (init b h)"
| "step b (Uninit ws) h = uninit b ws h"
| "step b RegisterNextFutureFrame h = Inr (fst (registerNextFutureFrame h))"
| "step b RegisterRepeatFutureFrame h = Inr (fst (registerRepeatFutureFrame h))"
| "step b (ReleaseTo n) h = Inr (releaseTo h n)"
| "step b (ReadyForFlip now) h = map_sum id snd (readyForFlip b now h)"
| "step b (Flip f r now ws) h = map_sum id snd (flip b ws r now h f)"
| "step b (Retire f) h = retire b h f"
| "step b PageFlipEvent h = pageFlipEvent h"
| "step b (Sync ws) h = sync b ws h"
| "step b CompleteFlip h = completeFlip h"

fun run :: "Build \<Rightarrow> call list \<Rightarrow> DrmPageFlipHandler \<Rightarrow> error + DrmPageFlipHandler" where
  "run b [] h = Inr h"
| "run b (c # cs) h = (case step b c h of Inl e \<Rightarrow> Inl e | Inr h' \<Rightarrow> run b cs h')"

section \<open>Example handlers, invariants and the rules of the specification\<close>

text \<open>
  A schedule lets the wait loop end when one of its waits sees the page flip event delivered
  or times out; a schedule of spurious wake-ups alone does not.
\<close>

definition waitEnds :: "wait list \<Rightarrow> bool" where
  "waitEnds ws = (\<exists>w \<in> set ws. fst w \<or> snd w = TIMED_OUT)"

text \<open>
  Concrete values for the scenarios: a frame with one enabled main layer and the given
  timeline index and validity, a display with a main plane and no atomic support, a build
  with \<open>uncomment\<close> defined and a timeout of one second, and the handler as constructed on
  that display with the option \<open>planealloc\<close> registered and enabled.
\<close>

definition frame :: "u32 \<Rightarrow> bool \<Rightarrow> Frame" where
  "frame n v =
     \<lparr>getFrameId = \<lparr>getTimelineIndex = n, isValid = v, getHwcReceivedTime = 0\<rparr>,
      layers = [\<lparr>isDisabled = False, getLayer = Content 0\<rparr>],
      getGlobalScaling = \<lparr>mbEnabled = False, mSrcW = 0, mSrcH = 0\<rparr>\<rparr>"

definition exampleDisplay :: DrmDisplay where
  "exampleDisplay =
     \<lparr>planeCaps = [PLANE_TYPE_MAIN, PLANE_TYPE_OTHER], nuclearTest = False, setDisplayTest = False,
      getAppliedWidth = 1920, getAppliedHeight = 1080, getBlankingLayer = None,
      releasedFrames = [], notifyReadyCalls = 0, seamlessAdaptCalls = []\<rparr>"

definition exampleBuild :: Build where
  "exampleBuild =
     \<lparr>uncomment = True, HWC_USE_ATOMIC_NUCLEAR = False, VPG_DRM_HAVE_ATOMIC_SETDISPLAY = False,
      mTimeoutFlip = 1000000000\<rparr>"

definition exampleHandler :: DrmPageFlipHandler where
  "exampleHandler = constructed exampleDisplay \<lparr>current = 0, future = 0\<rparr> [(''planealloc'', 1)]"

text \<open>The released point after a call or a sequence of calls, when it returned.\<close>

definition releasedPoint :: "error + DrmPageFlipHandler \<Rightarrow> u32 option" where
  "releasedPoint r = (case r of Inl e \<Rightarrow> None | Inr h \<Rightarrow> Some (current (mTimeline h)))"

text \<open>
  A pending frame is set by \<open>flip\<close> alone, and only on an initialised handler: a handler
  reached from the constructor has outstanding work only when it is initialised and the
  build has \<open>flip\<close>.
\<close>

definition pendingAllowed :: "Build \<Rightarrow> DrmPageFlipHandler \<Rightarrow> bool" where
  "pendingAllowed b h = (isOutstandingFlipWork h \<longrightarrow> mbInit h \<and> uncomment b)"

text \<open>
  The frame on screen got there by \<open>completeFlip\<close>, which released up to its index minus
  one when its id is valid; the timeline has not gone back since.
\<close>

fun releasedBefore :: "Frame option \<Rightarrow> u32 \<Rightarrow> bool" where
  "releasedBefore None c = True"
| "releasedBefore (Some cur) c =
     (isValid (getFrameId cur) \<longrightarrow> getTimelineIndex (getFrameId cur) - 1 \<le> c)"

definition currentFrameReleased :: "DrmPageFlipHandler \<Rightarrow> bool" where
  "currentFrameReleased h = releasedBefore (mpCurrentFrame h) (current (mTimeline h))"

text \<open>
  The retirement rule of the specification for a synthetic frame, in its own words: when the
  previously current frame is real and its index is ahead of the released point, the
  timeline advances to that index; otherwise it is left as it is.
\<close>

definition retireSyntheticSpec :: "Frame option \<Rightarrow> Timeline \<Rightarrow> Timeline" where
  "retireSyntheticSpec cur t =
     (case cur of
        None \<Rightarrow> t
      | Some c \<Rightarrow>
          if isValid (getFrameId c) \<and> current t < getTimelineIndex (getFrameId c)
          then t\<lparr>current := getTimelineIndex (getFrameId c)\<rparr>
          else t)"

text \<open>
  Scenarios as sequences of calls: frames 5, 6 and 7 flipped and completed in order; a frame
  whose flip fails to issue followed by a repeated frame on the same timeline index; frame 5
  flipped and completed, followed by frame 6 whose flip fails to issue.
\<close>

definition flip567 :: "call list" where
  "flip567 =
     [Init,
      Flip (frame 5 True) True 100 [], PageFlipEvent,
      Flip (frame 6 True) True 200 [], PageFlipEvent,
      Flip (frame 7 True) True 300 [], PageFlipEvent]"

definition repeatAfterFailure :: "call list" where
  "repeatAfterFailure =
     [Init, Flip (frame 5 True) False 100 [], Flip (frame 5 True) True 200 []]"

definition failureAfterCompletion :: "call list" where
  "failureAfterCompletion =
     [Init, Flip (frame 5 True) True 100 [], PageFlipEvent, Flip (frame 6 True) False 200 []]"

text \<open>A synthetic frame flipped between the real frames 5 and 6.\<close>

definition syntheticBetween :: "call list" where
  "syntheticBetween =
     [Init,
      Flip (frame 5 True) True 100 [], PageFlipEvent,
      Flip (frame 0 False) True 200 [], PageFlipEvent,
      Flip (frame 6 True) True 300 [], PageFlipEvent]"

text \<open>The example handler after \<open>init\<close> and a successful flip of frame 5, not yet completed.\<close>

definition afterFlip5 :: DrmPageFlipHandler where
  "afterFlip5 = projr (run exampleBuild (take 2 flip567) exampleHandler)"

section \<open>Properties\<close>

lemma advanceTo_mono: "current t \<le> current (advanceTo t n)"
  by (simp add: advanceTo_def)

lemma advance_mono: "current t \<le> current (advance t d)"
  by (simp add: advance_def advanceTo_mono)

lemma retirePreviousFrames_mono:
  "current (mTimeline h) \<le> current (mTimeline (retirePreviousFrames h f))"
  by (simp add: retirePreviousFrames_def Let_def advanceTo_mono advance_mono split: option.splits)

lemma retirePreviousFrames_fields:
  "mpLastFlippedFrame (retirePreviousFrames h f) = mpLastFlippedFrame h"
  "mpCurrentFrame (retirePreviousFrames h f) = mpCurrentFrame h"
  "mbInit (retirePreviousFrames h f) = mbInit h"
  "mDisplay (retirePreviousFrames h f) = mDisplay h"
  "etrace (retirePreviousFrames h f) = etrace h"
  "options (retirePreviousFrames h f) = options h"
  "mpImpl (retirePreviousFrames h f) = mpImpl h"
  "mLastPageFlipTime (retirePreviousFrames h f) = mLastPageFlipTime h"
  by (simp_all add: retirePreviousFrames_def Let_def split: option.splits)

lemma retirePreviousFrames_timeline_display:
  "mTimeline (retirePreviousFrames (h\<lparr>mDisplay := d\<rparr>) f) = mTimeline (retirePreviousFrames h f)"
  by (simp add: retirePreviousFrames_def Let_def split: option.splits)

lemma completeFlip_Inr:
  "mpLastFlippedFrame h = Some f \<Longrightarrow>
   \<exists>h'. completeFlip h = Inr h' \<and> mTimeline h' = mTimeline (retirePreviousFrames h f)
      \<and> mpLastFlippedFrame h' = None \<and> mpCurrentFrame h' = Some f \<and> mbInit h' = mbInit h
      \<and> etrace h' = etrace h \<and> mpImpl h' = mpImpl h \<and> options h' = options h
      \<and> mLastPageFlipTime h' = mLastPageFlipTime h"
  by (simp add: completeFlip_def Let_def retirePreviousFrames_fields retirePreviousFrames_timeline_display split: option.splits)

lemma completeFlip_Inl:
  "mpLastFlippedFrame h = None \<Longrightarrow> completeFlip h = Inl NullFrame"
  by (simp add: completeFlip_def)

lemma completeFlip_cases:
  assumes "completeFlip h = Inr h'"
  obtains f where "mpLastFlippedFrame h = Some f"
    "mTimeline h' = mTimeline (retirePreviousFrames h f)"
    "mpLastFlippedFrame h' = None" "mpCurrentFrame h' = Some f" "mbInit h' = mbInit h"
proof (cases "mpLastFlippedFrame h")
  case None
  with assms show ?thesis by (simp add: completeFlip_Inl)
next
  case (Some f)
  from completeFlip_Inr[OF Some] assms that[OF Some] show ?thesis by auto
qed

lemma completeFlip_mono:
  "completeFlip h = Inr h' \<Longrightarrow> current (mTimeline h) \<le> current (mTimeline h')"
  by (erule completeFlip_cases) (simp add: retirePreviousFrames_mono)

lemma completeFlip_post:
  "completeFlip h = Inr h' \<Longrightarrow> \<not> isOutstandingFlipWork h' \<and> mbInit h' = mbInit h"
  by (erule completeFlip_cases) (simp add: isOutstandingFlipWork_def)

lemma ETRACE_fields:
  "mTimeline (ETRACE m h) = mTimeline h"
  "mpLastFlippedFrame (ETRACE m h) = mpLastFlippedFrame h"
  "mpCurrentFrame (ETRACE m h) = mpCurrentFrame h"
  "mbInit (ETRACE m h) = mbInit h"
  "isOutstandingFlipWork (ETRACE m h) = isOutstandingFlipWork h"
  "mLastPageFlipTime (ETRACE m h) = mLastPageFlipTime h"
  by (simp_all add: ETRACE_def isOutstandingFlipWork_def)

lemma pageFlipEvent_mono:
  "pageFlipEvent h = Inr h' \<Longrightarrow> current (mTimeline h) \<le> current (mTimeline h')"
  by (auto simp: pageFlipEvent_def ETRACE_fields dest: completeFlip_mono split: if_splits)

lemma pageFlipEvent_init:
  "pageFlipEvent h = Inr h' \<Longrightarrow> mbInit h' = mbInit h"
  by (auto simp: pageFlipEvent_def ETRACE_fields dest: completeFlip_post split: if_splits)

lemma pageFlipEvent_completes:
  "mbInit h \<Longrightarrow> isOutstandingFlipWork h \<Longrightarrow>
   \<exists>h'. pageFlipEvent h = Inr h' \<and> \<not> isOutstandingFlipWork h' \<and> mbInit h'"
  using completeFlip_Inr[of h]
  by (auto simp: pageFlipEvent_def isOutstandingFlipWork_def)

lemma waitLoop_mono:
  "waitLoop ws h = Inr (ok, h') \<Longrightarrow> current (mTimeline h) \<le> current (mTimeline h')"
proof (induction ws arbitrary: h)
  case Nil
  then show ?case by (simp split: if_splits)
next
  case (Cons w ws)
  obtain ev err where w: "w = (ev, err)" by (cases w)
  show ?case
  proof (cases "isOutstandingFlipWork h")
    case False
    with Cons.prems w show ?thesis by simp
  next
    case True
    show ?thesis
    proof (cases "if ev then pageFlipEvent h else Inr h")
      case (Inl e)
      with Cons.prems w True show ?thesis by simp
    next
      case (Inr h1)
      then have le1: "current (mTimeline h) \<le> current (mTimeline h1)"
        by (auto dest: pageFlipEvent_mono split: if_splits)
      show ?thesis
      proof (cases "err = TIMED_OUT")
        case True
        with Cons.prems w \<open>isOutstandingFlipWork h\<close> Inr le1 show ?thesis
          by (auto simp: ETRACE_fields)
      next
        case False
        with Cons.prems w \<open>isOutstandingFlipWork h\<close> Inr
        have "waitLoop ws h1 = Inr (ok, h')" by simp
        from Cons.IH[OF this] le1 show ?thesis by simp
      qed
    qed
  qed
qed

lemma waitLoop_post:
  "waitLoop ws h = Inr (ok, h') \<Longrightarrow> mbInit h' = mbInit h \<and> (ok \<longrightarrow> \<not> isOutstandingFlipWork h')"
proof (induction ws arbitrary: h)
  case Nil
  then show ?case by (auto split: if_splits)
next
  case (Cons w ws)
  obtain ev err where w: "w = (ev, err)" by (cases w)
  show ?case
  proof (cases "isOutstandingFlipWork h")
    case False
    with Cons.prems w show ?thesis by auto
  next
    case True
    show ?thesis
    proof (cases "if ev then pageFlipEvent h else Inr h")
      case (Inl e)
      with Cons.prems w True show ?thesis by simp
    next
      case (Inr h1)
      then have i1: "mbInit h1 = mbInit h"
        by (auto dest: pageFlipEvent_init split: if_splits)
      show ?thesis
      proof (cases "err = TIMED_OUT")
        case True
        with Cons.prems w \<open>isOutstandingFlipWork h\<close> Inr i1 show ?thesis
          by (auto simp: ETRACE_fields)
      next
        case False
        with Cons.prems w \<open>isOutstandingFlipWork h\<close> Inr
        have "waitLoop ws h1 = Inr (ok, h')" by simp
        from Cons.IH[OF this] i1 show ?thesis by simp
      qed
    qed
  qed
qed

lemma waitLoop_returns:
  "mbInit h \<Longrightarrow> waitEnds ws \<or> \<not> isOutstandingFlipWork h \<Longrightarrow> \<exists>r. waitLoop ws h = Inr r"
proof (induction ws arbitrary: h)
  case Nil
  then show ?case by (auto simp: waitEnds_def)
next
  case (Cons w ws)
  obtain ev err where w: "w = (ev, err)" by (cases w)
  show ?case
  proof (cases "isOutstandingFlipWork h")
    case False
    with w show ?thesis by auto
  next
    case out: True
    show ?thesis
    proof (cases ev)
      case True
      from pageFlipEvent_completes[OF Cons.prems(1) out]
      obtain h1 where h1: "pageFlipEvent h = Inr h1" "\<not> isOutstandingFlipWork h1" "mbInit h1"
        by blast
      from Cons.IH[of h1] h1 obtain r where "waitLoop ws h1 = Inr r" by blast
      with w out True h1 show ?thesis by auto
    next
      case False
      show ?thesis
      proof (cases "err = TIMED_OUT")
        case True
        with w out False show ?thesis by auto
      next
        case nt: False
        with Cons.prems(2) w False out have "waitEnds ws" by (auto simp: waitEnds_def)
        with Cons.IH[of h] Cons.prems(1) obtain r where "waitLoop ws h = Inr r" by blast
        with w out False nt show ?thesis by auto
      qed
    qed
  qed
qed

lemma waitForFlipCompletion_mono:
  "waitForFlipCompletion b ws h = Inr (ok, h') \<Longrightarrow> current (mTimeline h) \<le> current (mTimeline h')"
  by (auto simp: waitForFlipCompletion_def dest: waitLoop_mono split: if_splits)

lemma waitForFlipCompletion_post:
  "waitForFlipCompletion b ws h = Inr (ok, h') \<Longrightarrow>
   mbInit h' = mbInit h \<and> (uncomment b \<longrightarrow> ok \<longrightarrow> \<not> isOutstandingFlipWork h')"
  by (auto simp: waitForFlipCompletion_def dest: waitLoop_post split: if_splits)

lemma doSync_forced:
  "isOutstandingFlipWork h' \<Longrightarrow>
   (case mpLastFlippedFrame h' of None \<Rightarrow> Inl NullFrame
    | Some f \<Rightarrow> completeFlip (ETRACE (ForcingFlipCompletion (getFrameId f)) h')) = Inr h'' \<Longrightarrow>
   current (mTimeline h') \<le> current (mTimeline h'') \<and> \<not> isOutstandingFlipWork h'' \<and> mbInit h'' = mbInit h'"
proof -
  assume out: "isOutstandingFlipWork h'"
  assume c: "(case mpLastFlippedFrame h' of None \<Rightarrow> Inl NullFrame
    | Some f \<Rightarrow> completeFlip (ETRACE (ForcingFlipCompletion (getFrameId f)) h')) = Inr h''"
  from out obtain f where f: "mpLastFlippedFrame h' = Some f"
    by (auto simp: isOutstandingFlipWork_def)
  with c have cf: "completeFlip (ETRACE (ForcingFlipCompletion (getFrameId f)) h') = Inr h''"
    by simp
  from completeFlip_mono[OF cf] completeFlip_post[OF cf] show ?thesis
    by (simp add: ETRACE_fields)
qed

lemma doSync_mono:
  assumes "doSync b ws h = Inr h'"
  shows "current (mTimeline h) \<le> current (mTimeline h')"
proof (cases "isOutstandingFlipWork h")
  case False
  with assms show ?thesis by (simp add: doSync_def)
next
  case True
  with assms obtain ok h1 where w: "waitForFlipCompletion b ws h = Inr (ok, h1)"
    by (auto simp: doSync_def split: sum.splits)
  note le1 = waitForFlipCompletion_mono[OF w]
  show ?thesis
  proof (cases "\<not> ok \<and> isOutstandingFlipWork h1")
    case False
    with assms True w have "h' = h1" by (auto simp: doSync_def split: if_splits)
    with le1 show ?thesis by simp
  next
    case forced: True
    with assms \<open>isOutstandingFlipWork h\<close> w
    have "(case mpLastFlippedFrame h1 of None \<Rightarrow> Inl NullFrame
           | Some f \<Rightarrow> completeFlip (ETRACE (ForcingFlipCompletion (getFrameId f)) h1)) = Inr h'"
      by (simp add: doSync_def)
    from doSync_forced[OF _ this] forced le1 show ?thesis by auto
  qed
qed

lemma doSync_post:
  assumes "doSync b ws h = Inr h'"
  shows "mbInit h' = mbInit h \<and> (uncomment b \<longrightarrow> \<not> isOutstandingFlipWork h')
         \<and> (\<not> isOutstandingFlipWork h \<longrightarrow> h' = h)"
proof (cases "isOutstandingFlipWork h")
  case False
  with assms show ?thesis by (simp add: doSync_def)
next
  case True
  with assms obtain ok h1 where w: "waitForFlipCompletion b ws h = Inr (ok, h1)"
    by (auto simp: doSync_def split: sum.splits)
  note p1 = waitForFlipCompletion_post[OF w]
  show ?thesis
  proof (cases "\<not> ok \<and> isOutstandingFlipWork h1")
    case False
    with assms True w have "h' = h1" by (auto simp: doSync_def split: if_splits)
    with p1 False True show ?thesis by auto
  next
    case forced: True
    with assms \<open>isOutstandingFlipWork h\<close> w
    have "(case mpLastFlippedFrame h1 of None \<Rightarrow> Inl NullFrame
           | Some f \<Rightarrow> completeFlip (ETRACE (ForcingFlipCompletion (getFrameId f)) h1)) = Inr h'"
      by (simp add: doSync_def)
    from doSync_forced[OF _ this] forced p1 True show ?thesis by auto
  qed
qed

lemma doSync_returns:
  assumes "uncomment b" "mbInit h" "waitEnds ws \<or> \<not> isOutstandingFlipWork h"
  shows "\<exists>h'. doSync b ws h = Inr h'"
proof (cases "isOutstandingFlipWork h")
  case False
  then show ?thesis by (simp add: doSync_def)
next
  case True
  from waitLoop_returns[OF assms(2,3)] obtain ok h1 where w: "waitLoop ws h = Inr (ok, h1)"
    by auto
  show ?thesis
  proof (cases "\<not> ok \<and> isOutstandingFlipWork h1")
    case False
    with True w assms(1) show ?thesis by (auto simp: doSync_def waitForFlipCompletion_def)
  next
    case forced: True
    then obtain f where f: "mpLastFlippedFrame h1 = Some f"
      by (auto simp: isOutstandingFlipWork_def)
    then have "mpLastFlippedFrame (ETRACE (ForcingFlipCompletion (getFrameId f)) h1) = Some f"
      by (simp add: ETRACE_fields)
    from completeFlip_Inr[OF this] obtain h' where
      "completeFlip (ETRACE (ForcingFlipCompletion (getFrameId f)) h1) = Inr h'" by blast
    with True w assms(1) forced f show ?thesis
      by (auto simp: doSync_def waitForFlipCompletion_def)
  qed
qed

lemma sync_mono: "sync b ws h = Inr h' \<Longrightarrow> current (mTimeline h) \<le> current (mTimeline h')"
  by (auto simp: sync_def dest: doSync_mono split: if_splits)

lemma uninit_mono: "uninit b ws h = Inr h' \<Longrightarrow> current (mTimeline h) \<le> current (mTimeline h')"
  by (auto simp: uninit_def dest: doSync_mono split: if_splits sum.splits)

lemma readyForFlip_mono:
  "readyForFlip b now h = Inr (r, h') \<Longrightarrow> current (mTimeline h) \<le> current (mTimeline h')"
  by (auto simp: readyForFlip_def Let_def ETRACE_fields dest!: completeFlip_mono split: if_splits sum.splits)

lemma init_timeline: "mTimeline (init b h) = mTimeline h"
  by (simp add: init_def Let_def)

lemma doRetire_mono: "current (mTimeline h) \<le> current (mTimeline (doRetire h f))"
  by (simp add: doRetire_def advanceTo_mono)

lemma primeMain_frameId:
  "primeMain h f = (d, f', pMain, bl) \<Longrightarrow> getFrameId f' = getFrameId f"
  by (auto simp: primeMain_def Let_def setLayer_def split: if_splits option.splits)

lemma flipIssue_timeline:
  "flipIssue r now pMain i f h1 = (ok, h3) \<Longrightarrow> mTimeline h3 = mTimeline h1"
  by (auto simp: flipIssue_def Let_def split: if_splits option.splits)

lemma flipSynced_mono:
  "flipSynced b ws h f = Inr h1 \<Longrightarrow> current (mTimeline h) \<le> current (mTimeline h1)"
  by (auto simp: flipSynced_def dest: doSync_mono split: prod.splits)

lemma flip_mono:
  assumes "flip b ws r now h f = Inr (ok, h')"
  shows "current (mTimeline h) \<le> current (mTimeline h')"
proof (cases "mbInit h")
  case False
  with assms show ?thesis
    by (auto simp: flip_def doRetire_mono split: if_splits)
next
  case True
  obtain d f' pMain bl where pm: "primeMain h f = (d, f', pMain, bl)"
    by (cases "primeMain h f") auto
  from assms True pm obtain h1 where s: "flipSynced b ws h f = Inr h1"
    by (auto simp: flip_def split: if_splits sum.splits)
  obtain ok3 h3 where fi: "flipIssue r now pMain (mMainPlaneIndex h) f' h1 = (ok3, h3)"
    by (cases "flipIssue r now pMain (mMainPlaneIndex h) f' h1") auto
  from assms True pm s fi have "h' = (if \<not> ok3 then doRetire h3 f' else h3)"
    by (auto simp: flip_def split: if_splits)
  moreover have "current (mTimeline h) \<le> current (mTimeline h3)"
    using flipSynced_mono[OF s] flipIssue_timeline[OF fi] by simp
  ultimately show ?thesis
    using doRetire_mono[of h3 f'] by (auto intro: order_trans)
qed

lemma step_mono:
  "step b c h = Inr h' \<Longrightarrow> current (mTimeline h) \<le> current (mTimeline h')"
proof (cases c)
  case Init
  then show "step b c h = Inr h' \<Longrightarrow> ?thesis" by (auto simp: init_timeline)
next
  case (Uninit ws)
  then show "step b c h = Inr h' \<Longrightarrow> ?thesis" by (auto dest: uninit_mono)
next
  case RegisterNextFutureFrame
  then show "step b c h = Inr h' \<Longrightarrow> ?thesis"
    by (auto simp: registerNextFutureFrame_def createFence_def)
next
  case RegisterRepeatFutureFrame
  then show "step b c h = Inr h' \<Longrightarrow> ?thesis"
    by (auto simp: registerRepeatFutureFrame_def repeatFence_def)
next
  case (ReleaseTo n)
  then show "step b c h = Inr h' \<Longrightarrow> ?thesis"
    by (auto simp: releaseTo_def advanceTo_mono)
next
  case (ReadyForFlip now)
  then show "step b c h = Inr h' \<Longrightarrow> ?thesis"
    by (cases "readyForFlip b now h") (auto dest: readyForFlip_mono)
next
  case (Flip f r now ws)
  then show "step b c h = Inr h' \<Longrightarrow> ?thesis"
    by (cases "flip b ws r now h f") (auto dest: flip_mono)
next
  case (Retire f)
  then show "step b c h = Inr h' \<Longrightarrow> ?thesis"
    by (auto simp: retire_def doRetire_mono split: if_splits)
next
  case PageFlipEvent
  then show "step b c h = Inr h' \<Longrightarrow> ?thesis" by (auto dest: pageFlipEvent_mono)
next
  case (Sync ws)
  then show "step b c h = Inr h' \<Longrightarrow> ?thesis" by (auto dest: sync_mono)
next
  case CompleteFlip
  then show "step b c h = Inr h' \<Longrightarrow> ?thesis" by (auto dest: completeFlip_mono)
qed

lemma run_mono:
  "run b cs h = Inr h' \<Longrightarrow> current (mTimeline h) \<le> current (mTimeline h')"
proof (induction cs arbitrary: h)
  case Nil
  then show ?case by simp
next
  case (Cons c cs)
  then obtain h1 where s: "step b c h = Inr h1" and r: "run b cs h1 = Inr h'"
    by (auto split: sum.splits)
  from step_mono[OF s] Cons.IH[OF r] show ?case by simp
qed

lemma pendingAllowed_constructed: "pendingAllowed b (constructed d t opts)"
  by (simp add: pendingAllowed_def constructed_def isOutstandingFlipWork_def)

lemma init_pending:
  "isOutstandingFlipWork (init b h) = isOutstandingFlipWork h" "mbInit (init b h)"
  by (simp_all add: init_def Let_def isOutstandingFlipWork_def)

lemma readyForFlip_pending:
  "readyForFlip b now h = Inr (r, h') \<Longrightarrow>
   mbInit h' = mbInit h \<and> (isOutstandingFlipWork h' \<longrightarrow> isOutstandingFlipWork h)
   \<and> r = (\<not> isOutstandingFlipWork h')"
  by (auto simp: readyForFlip_def Let_def ETRACE_fields dest: completeFlip_post
           split: if_splits sum.splits)

lemma pageFlipEvent_pending:
  "pageFlipEvent h = Inr h' \<Longrightarrow>
   mbInit h' = mbInit h \<and> (isOutstandingFlipWork h' \<longrightarrow> isOutstandingFlipWork h)"
  by (auto simp: pageFlipEvent_def ETRACE_fields dest: completeFlip_post split: if_splits)

lemma doRetire_fields:
  "mbInit (doRetire h f) = mbInit h"
  "mpLastFlippedFrame (doRetire h f) = mpLastFlippedFrame h"
  "isOutstandingFlipWork (doRetire h f) = isOutstandingFlipWork h"
  "mLastPageFlipTime (doRetire h f) = mLastPageFlipTime h"
  "mTimeline (doRetire h f) = advanceTo (mTimeline h) (getTimelineIndex (getFrameId f))"
  by (simp_all add: doRetire_def isOutstandingFlipWork_def)

lemma flipSynced_post:
  "flipSynced b ws h f = Inr h1 \<Longrightarrow>
   mbInit h1 = mbInit h \<and> (uncomment b \<longrightarrow> \<not> isOutstandingFlipWork h1)"
  by (auto simp: flipSynced_def dest!: doSync_post split: prod.splits)

lemma flipIssue_init:
  "flipIssue r now pMain i f h1 = (ok, h3) \<Longrightarrow> mbInit h3 = mbInit h1"
  by (auto simp: flipIssue_def Let_def split: if_splits option.splits)

lemma flip_init:
  assumes "flip b ws r now h f = Inr (ok, h')"
  shows "mbInit h' = mbInit h \<and> uncomment b \<and> (\<not> mbInit h \<longrightarrow> h' = doRetire h f)"
proof (cases "mbInit h")
  case False
  with assms show ?thesis
    by (auto simp: flip_def doRetire_fields split: if_splits)
next
  case True
  obtain d f' pMain bl where pm: "primeMain h f = (d, f', pMain, bl)"
    by (cases "primeMain h f") auto
  from assms True pm obtain h1 where s: "flipSynced b ws h f = Inr h1"
    by (auto simp: flip_def split: if_splits sum.splits)
  obtain ok3 h3 where fi: "flipIssue r now pMain (mMainPlaneIndex h) f' h1 = (ok3, h3)"
    by (cases "flipIssue r now pMain (mMainPlaneIndex h) f' h1") auto
  from assms True pm s fi have "h' = (if \<not> ok3 then doRetire h3 f' else h3)" "uncomment b"
    by (auto simp: flip_def split: if_splits)
  with flipSynced_post[OF s] flipIssue_init[OF fi] True show ?thesis
    by (auto simp: doRetire_fields)
qed

lemma registerFutureFrame_fields:
  "isOutstandingFlipWork (fst (registerNextFutureFrame h)) = isOutstandingFlipWork h"
  "mbInit (fst (registerNextFutureFrame h)) = mbInit h"
  "isOutstandingFlipWork (fst (registerRepeatFutureFrame h)) = isOutstandingFlipWork h"
  "mbInit (fst (registerRepeatFutureFrame h)) = mbInit h"
  by (simp_all add: registerNextFutureFrame_def registerRepeatFutureFrame_def createFence_def
                    repeatFence_def isOutstandingFlipWork_def)

lemma releaseTo_fields:
  "isOutstandingFlipWork (releaseTo h n) = isOutstandingFlipWork h"
  "mbInit (releaseTo h n) = mbInit h"
  by (simp_all add: releaseTo_def isOutstandingFlipWork_def)

lemma uninit_pendingAllowed:
  assumes "uninit b ws h = Inr h'" "pendingAllowed b h"
  shows "pendingAllowed b h'"
proof (cases "mbInit h")
  case False
  with assms show ?thesis by (simp add: uninit_def)
next
  case True
  with assms obtain h1 where d: "doSync b ws h = Inr h1"
    and h': "h' = h1\<lparr>mpImpl := None, mbInit := False\<rparr>"
    by (auto simp: uninit_def split: sum.splits)
  from doSync_post[OF d] assms(2) have "\<not> isOutstandingFlipWork h1"
    by (auto simp: pendingAllowed_def)
  with h' show ?thesis by (simp add: pendingAllowed_def isOutstandingFlipWork_def)
qed

lemma sync_pendingAllowed:
  assumes "sync b ws h = Inr h'" "pendingAllowed b h"
  shows "pendingAllowed b h'"
proof (cases "mbInit h")
  case False
  with assms show ?thesis by (simp add: sync_def)
next
  case True
  with assms have d: "doSync b ws h = Inr h'" by (simp add: sync_def)
  from doSync_post[OF d] assms(2) True show ?thesis
    by (auto simp: pendingAllowed_def)
qed

lemma map_sum_snd_Inr: "map_sum id snd x = Inr h' \<Longrightarrow> \<exists>r. x = Inr (r, h')"
  by (cases x) auto

lemma step_pendingAllowed:
  assumes "step b c h = Inr h'" "pendingAllowed b h"
  shows "pendingAllowed b h'"
proof (cases c)
  case Init
  with assms(1) have "h' = init b h" by simp
  with assms(2) show ?thesis by (simp add: pendingAllowed_def init_pending)
next
  case (Uninit ws)
  with assms(1) have "uninit b ws h = Inr h'" by simp
  from uninit_pendingAllowed[OF this assms(2)] show ?thesis .
next
  case RegisterNextFutureFrame
  with assms(1) have "h' = fst (registerNextFutureFrame h)" by simp
  with assms(2) show ?thesis by (simp add: pendingAllowed_def registerFutureFrame_fields)
next
  case RegisterRepeatFutureFrame
  with assms(1) have "h' = fst (registerRepeatFutureFrame h)" by simp
  with assms(2) show ?thesis by (simp add: pendingAllowed_def registerFutureFrame_fields)
next
  case (ReleaseTo n)
  with assms(1) have "h' = releaseTo h n" by simp
  with assms(2) show ?thesis by (simp add: pendingAllowed_def releaseTo_fields)
next
  case (ReadyForFlip now)
  with assms(1) have "map_sum id snd (readyForFlip b now h) = Inr h'" by simp
  from map_sum_snd_Inr[OF this] obtain r where "readyForFlip b now h = Inr (r, h')" ..
  from readyForFlip_pending[OF this] assms(2) show ?thesis
    by (auto simp: pendingAllowed_def)
next
  case (Flip f r now ws)
  with assms(1) have "map_sum id snd (flip b ws r now h f) = Inr h'" by simp
  from map_sum_snd_Inr[OF this] obtain ok where "flip b ws r now h f = Inr (ok, h')" ..
  from flip_init[OF this] assms(2) show ?thesis
    by (auto simp: pendingAllowed_def doRetire_fields)
next
  case (Retire f)
  with assms(1) have "h' = doRetire h f" by (simp add: retire_def split: if_splits)
  with assms(2) show ?thesis by (simp add: pendingAllowed_def doRetire_fields)
next
  case PageFlipEvent
  with assms(1) have "pageFlipEvent h = Inr h'" by simp
  from pageFlipEvent_pending[OF this] assms(2) show ?thesis
    by (auto simp: pendingAllowed_def)
next
  case (Sync ws)
  with assms(1) have "sync b ws h = Inr h'" by simp
  from sync_pendingAllowed[OF this assms(2)] show ?thesis .
next
  case CompleteFlip
  with assms(1) have "completeFlip h = Inr h'" by simp
  from completeFlip_post[OF this] show ?thesis by (simp add: pendingAllowed_def)
qed

lemma run_pendingAllowed:
  "run b cs h = Inr h' \<Longrightarrow> pendingAllowed b h \<Longrightarrow> pendingAllowed b h'"
proof (induction cs arbitrary: h)
  case Nil
  then show ?case by simp
next
  case (Cons c cs)
  then obtain h1 where s: "step b c h = Inr h1" and r: "run b cs h1 = Inr h'"
    by (auto split: sum.splits)
  from Cons.IH[OF r step_pendingAllowed[OF s Cons.prems(2)]] show ?case .
qed

lemma reachable_pendingAllowed:
  "run b cs (constructed d t opts) = Inr h \<Longrightarrow> pendingAllowed b h"
  by (erule run_pendingAllowed) (rule pendingAllowed_constructed)

lemma currentFrameReleased_mono:
  "currentFrameReleased h \<Longrightarrow> mpCurrentFrame h' = mpCurrentFrame h \<Longrightarrow>
   current (mTimeline h) \<le> current (mTimeline h') \<Longrightarrow> currentFrameReleased h'"
  by (cases "mpCurrentFrame h") (auto simp: currentFrameReleased_def)

lemma completeFlip_currentFrameReleased:
  assumes "completeFlip h = Inr h'"
  shows "currentFrameReleased h'"
proof -
  from assms obtain f where f: "mpLastFlippedFrame h = Some f"
    "mTimeline h' = mTimeline (retirePreviousFrames h f)" "mpCurrentFrame h' = Some f"
    by (rule completeFlip_cases)
  show ?thesis
    using f(2,3) by (simp add: currentFrameReleased_def retirePreviousFrames_def advanceTo_def)
qed

lemma currentFrameReleased_cong:
  "mpCurrentFrame h' = mpCurrentFrame h \<Longrightarrow> mTimeline h' = mTimeline h \<Longrightarrow>
   currentFrameReleased h' = currentFrameReleased h"
  by (simp add: currentFrameReleased_def)

lemma ETRACE_currentFrameReleased:
  "currentFrameReleased (ETRACE m h) = currentFrameReleased h"
  by (rule currentFrameReleased_cong) (simp_all add: ETRACE_def)

lemma pageFlipEvent_currentFrameReleased:
  "pageFlipEvent h = Inr h' \<Longrightarrow> currentFrameReleased h \<Longrightarrow> currentFrameReleased h'"
  by (auto simp: pageFlipEvent_def ETRACE_currentFrameReleased
           dest: completeFlip_currentFrameReleased split: if_splits)

lemma waitLoop_currentFrameReleased:
  "waitLoop ws h = Inr (ok, h') \<Longrightarrow> currentFrameReleased h \<Longrightarrow> currentFrameReleased h'"
proof (induction ws arbitrary: h)
  case Nil
  then show ?case by (simp split: if_splits)
next
  case (Cons w ws)
  obtain ev err where w: "w = (ev, err)" by (cases w)
  show ?case
  proof (cases "isOutstandingFlipWork h")
    case False
    with Cons.prems w show ?thesis by simp
  next
    case True
    show ?thesis
    proof (cases "if ev then pageFlipEvent h else Inr h")
      case (Inl e)
      with Cons.prems w True show ?thesis by simp
    next
      case (Inr h1)
      with Cons.prems(2) have c1: "currentFrameReleased h1"
        by (auto dest: pageFlipEvent_currentFrameReleased split: if_splits)
      show ?thesis
      proof (cases "err = TIMED_OUT")
        case True
        with Cons.prems w \<open>isOutstandingFlipWork h\<close> Inr c1 show ?thesis
          by (auto simp: ETRACE_currentFrameReleased)
      next
        case False
        with Cons.prems w \<open>isOutstandingFlipWork h\<close> Inr
        have "waitLoop ws h1 = Inr (ok, h')" by simp
        from Cons.IH[OF this c1] show ?thesis .
      qed
    qed
  qed
qed

lemma doSync_currentFrameReleased:
  assumes "doSync b ws h = Inr h'" "currentFrameReleased h"
  shows "currentFrameReleased h'"
proof (cases "isOutstandingFlipWork h")
  case False
  with assms show ?thesis by (simp add: doSync_def)
next
  case True
  with assms obtain ok h1 where w: "waitForFlipCompletion b ws h = Inr (ok, h1)"
    by (auto simp: doSync_def split: sum.splits)
  then have c1: "currentFrameReleased h1"
    using assms(2)
    by (auto simp: waitForFlipCompletion_def dest: waitLoop_currentFrameReleased split: if_splits)
  show ?thesis
  proof (cases "\<not> ok \<and> isOutstandingFlipWork h1")
    case False
    with assms True w have "h' = h1" by (auto simp: doSync_def split: if_splits)
    with c1 show ?thesis by simp
  next
    case forced: True
    then obtain f where f: "mpLastFlippedFrame h1 = Some f"
      by (auto simp: isOutstandingFlipWork_def)
    with assms \<open>isOutstandingFlipWork h\<close> w forced
    have "completeFlip (ETRACE (ForcingFlipCompletion (getFrameId f)) h1) = Inr h'"
      by (simp add: doSync_def)
    then show ?thesis by (rule completeFlip_currentFrameReleased)
  qed
qed

lemma init_currentFrameReleased: "currentFrameReleased (init b h) = currentFrameReleased h"
  by (rule currentFrameReleased_cong) (simp_all add: init_def Let_def)

lemma doRetire_currentFrameReleased:
  "currentFrameReleased h \<Longrightarrow> currentFrameReleased (doRetire h f)"
  by (erule currentFrameReleased_mono) (simp_all add: doRetire_def advanceTo_mono)

lemma flipIssue_currentFrameReleased:
  "flipIssue r now pMain i f h1 = (ok, h3) \<Longrightarrow> currentFrameReleased h3 = currentFrameReleased h1"
  by (auto simp: flipIssue_def Let_def currentFrameReleased_def split: if_splits option.splits)

lemma flip_currentFrameReleased:
  assumes "flip b ws r now h f = Inr (ok, h')" "currentFrameReleased h"
  shows "currentFrameReleased h'"
proof (cases "mbInit h")
  case False
  with assms(1) have "h' = doRetire h f" by (auto simp: flip_def split: if_splits)
  with assms(2) show ?thesis by (simp add: doRetire_currentFrameReleased)
next
  case True
  obtain d f' pMain bl where pm: "primeMain h f = (d, f', pMain, bl)"
    by (cases "primeMain h f") auto
  from assms True pm obtain h1 where s: "doSync b ws (h\<lparr>mDisplay := d\<rparr>) = Inr h1"
    by (auto simp: flip_def flipSynced_def split: if_splits sum.splits)
  obtain ok3 h3 where fi: "flipIssue r now pMain (mMainPlaneIndex h) f' h1 = (ok3, h3)"
    by (cases "flipIssue r now pMain (mMainPlaneIndex h) f' h1") auto
  from assms True pm s fi have h': "h' = (if \<not> ok3 then doRetire h3 f' else h3)"
    by (auto simp: flip_def flipSynced_def split: if_splits)
  from assms(2) have "currentFrameReleased (h\<lparr>mDisplay := d\<rparr>)"
    by (simp add: currentFrameReleased_def)
  from doSync_currentFrameReleased[OF s this] flipIssue_currentFrameReleased[OF fi]
  have "currentFrameReleased h3" by simp
  with h' show ?thesis by (simp add: doRetire_currentFrameReleased)
qed

lemma step_currentFrameReleased:
  assumes "step b c h = Inr h'" "currentFrameReleased h"
  shows "currentFrameReleased h'"
proof (cases c)
  case Init
  with assms(1) have "h' = init b h" by simp
  with assms(2) show ?thesis by (simp add: init_currentFrameReleased)
next
  case (Uninit ws)
  show ?thesis
  proof (cases "mbInit h")
    case False
    with assms Uninit show ?thesis by (simp add: uninit_def)
  next
    case True
    with assms(1) Uninit obtain h1 where d: "doSync b ws h = Inr h1"
      and h': "h' = h1\<lparr>mpImpl := None, mbInit := False\<rparr>"
      by (auto simp: uninit_def split: sum.splits)
    from doSync_currentFrameReleased[OF d assms(2)] h' show ?thesis
      by (simp add: currentFrameReleased_def)
  qed
next
  case RegisterNextFutureFrame
  with assms(1) have "h' = fst (registerNextFutureFrame h)" by simp
  with assms(2) show ?thesis
    by (simp add: currentFrameReleased_def registerNextFutureFrame_def createFence_def)
next
  case RegisterRepeatFutureFrame
  with assms(1) have "h' = fst (registerRepeatFutureFrame h)" by simp
  with assms(2) show ?thesis
    by (simp add: currentFrameReleased_def registerRepeatFutureFrame_def repeatFence_def)
next
  case (ReleaseTo n)
  with assms(1) have "h' = releaseTo h n" by simp
  with assms(2) show ?thesis
    by (auto intro: currentFrameReleased_mono[of h] simp: releaseTo_def advanceTo_mono)
next
  case (ReadyForFlip now)
  with assms(1) have "map_sum id snd (readyForFlip b now h) = Inr h'" by simp
  from map_sum_snd_Inr[OF this] obtain r where "readyForFlip b now h = Inr (r, h')" ..
  with assms(2) show ?thesis
    by (auto simp: readyForFlip_def Let_def dest: completeFlip_currentFrameReleased
             split: if_splits sum.splits)
next
  case (Flip f r now ws)
  with assms(1) have "map_sum id snd (flip b ws r now h f) = Inr h'" by simp
  from map_sum_snd_Inr[OF this] obtain ok where "flip b ws r now h f = Inr (ok, h')" ..
  from flip_currentFrameReleased[OF this assms(2)] show ?thesis .
next
  case (Retire f)
  with assms(1) have "h' = doRetire h f" by (simp add: retire_def split: if_splits)
  with assms(2) show ?thesis by (simp add: doRetire_currentFrameReleased)
next
  case PageFlipEvent
  with assms(1) have "pageFlipEvent h = Inr h'" by simp
  from pageFlipEvent_currentFrameReleased[OF this assms(2)] show ?thesis .
next
  case (Sync ws)
  with assms show ?thesis
    by (auto simp: sync_def dest: doSync_currentFrameReleased split: if_splits)
next
  case CompleteFlip
  with assms(1) have "completeFlip h = Inr h'" by simp
  then show ?thesis by (rule completeFlip_currentFrameReleased)
qed

lemma run_currentFrameReleased:
  "run b cs h = Inr h' \<Longrightarrow> currentFrameReleased h \<Longrightarrow> currentFrameReleased h'"
proof (induction cs arbitrary: h)
  case Nil
  then show ?case by simp
next
  case (Cons c cs)
  then obtain h1 where s: "step b c h = Inr h1" and r: "run b cs h1 = Inr h'"
    by (auto split: sum.splits)
  from Cons.IH[OF r step_currentFrameReleased[OF s Cons.prems(2)]] show ?case .
qed

lemma reachable_currentFrameReleased:
  "run b cs (constructed d t opts) = Inr h \<Longrightarrow> currentFrameReleased h"
  by (erule run_currentFrameReleased) (simp add: currentFrameReleased_def constructed_def)

lemma flip567_released:
  "map (\<lambda>n. releasedPoint (run exampleBuild (take n flip567) exampleHandler)) [3, 5, 7]
     = [Some 4, Some 5, Some 6]"
  by code_simp

lemma retirePreviousFrames_valid:
  "isValid (getFrameId f) \<Longrightarrow>
   retirePreviousFrames h f =
     h\<lparr>mTimeline := advanceTo (mTimeline h) (getTimelineIndex (getFrameId f) - 1)\<rparr>"
  by (simp add: retirePreviousFrames_def)

text \<open>
  Claim C1, as amended. When the flip to a frame with a valid id completes, \<open>completeFlip\<close>
  asks the timeline to advance to the frame's index minus one: the released point becomes the
  maximum of its old value and that index minus one. It is exactly the index minus one when
  the timeline was not already beyond it, and then (for an index other than 0) the flipped
  frame itself is not released in the handler that \<open>completeFlip\<close> returns; the frame becomes
  the current one and nothing is pending. Frames 5, 6 and 7 flipped in order on a fresh
  handler leave the released point at 4, 5 and 6 after their completions.
\<close>

theorem completeFlip_valid_releases_previous:
  "(mpLastFlippedFrame h = Some f \<and> isValid (getFrameId f) \<longrightarrow>
      (\<exists>h'. completeFlip h = Inr h'
         \<and> mTimeline h' = advanceTo (mTimeline h) (getTimelineIndex (getFrameId f) - 1)
         \<and> current (mTimeline h') = max (current (mTimeline h)) (getTimelineIndex (getFrameId f) - 1)
         \<and> (current (mTimeline h) \<le> getTimelineIndex (getFrameId f) - 1 \<longrightarrow>
              current (mTimeline h') = getTimelineIndex (getFrameId f) - 1)
         \<and> (current (mTimeline h) \<le> getTimelineIndex (getFrameId f) - 1
              \<and> getTimelineIndex (getFrameId f) \<noteq> 0 \<longrightarrow>
              current (mTimeline h') < getTimelineIndex (getFrameId f))
         \<and> mpCurrentFrame h' = Some f \<and> mpLastFlippedFrame h' = None))
   \<and> map (\<lambda>n. releasedPoint (run exampleBuild (take n flip567) exampleHandler)) [3, 5, 7]
         = [Some 4, Some 5, Some 6]"
proof (intro conjI impI)
  assume a: "mpLastFlippedFrame h = Some f \<and> isValid (getFrameId f)"
  then have pend: "mpLastFlippedFrame h = Some f" and v: "isValid (getFrameId f)" by simp_all
  from completeFlip_Inr[OF pend] obtain h' where h':
    "completeFlip h = Inr h'" "mTimeline h' = mTimeline (retirePreviousFrames h f)"
    "mpLastFlippedFrame h' = None" "mpCurrentFrame h' = Some f"
    by blast
  let ?i = "getTimelineIndex (getFrameId f)"
  from h'(2) v have tl: "mTimeline h' = advanceTo (mTimeline h) (?i - 1)"
    by (simp add: retirePreviousFrames_valid)
  then have cur: "current (mTimeline h') = max (current (mTimeline h)) (?i - 1)"
    by (simp add: advanceTo_def)
  have lt: "?i \<noteq> 0 \<Longrightarrow> ?i - 1 < ?i"
    by (simp add: word_less_nat_alt unat_minus_one unat_gt_0)
  show "\<exists>h'. completeFlip h = Inr h'
         \<and> mTimeline h' = advanceTo (mTimeline h) (?i - 1)
         \<and> current (mTimeline h') = max (current (mTimeline h)) (?i - 1)
         \<and> (current (mTimeline h) \<le> ?i - 1 \<longrightarrow> current (mTimeline h') = ?i - 1)
         \<and> (current (mTimeline h) \<le> ?i - 1 \<and> ?i \<noteq> 0 \<longrightarrow> current (mTimeline h') < ?i)
         \<and> mpCurrentFrame h' = Some f \<and> mpLastFlippedFrame h' = None"
    using h' tl cur lt by (auto simp: max_def)
next
  show "map (\<lambda>n. releasedPoint (run exampleBuild (take n flip567) exampleHandler)) [3, 5, 7]
         = [Some 4, Some 5, Some 6]"
    by (rule flip567_released)
qed

lemma repeatAfterFailure_state:
  "run exampleBuild repeatAfterFailure exampleHandler
     = Inr (projr (run exampleBuild repeatAfterFailure exampleHandler))"
  by code_simp

theorem completeFlip_valid_releases_previous_witness:
  "mpLastFlippedFrame (projr (run exampleBuild (take 2 flip567) exampleHandler)) = Some (frame 5 True)
   \<and> isValid (getFrameId (frame 5 True))
   \<and> releasedPoint (completeFlip (projr (run exampleBuild (take 2 flip567) exampleHandler))) = Some 4"
proof -
  let ?h = "projr (run exampleBuild (take 2 flip567) exampleHandler)"
  have p: "mpLastFlippedFrame ?h = Some (frame 5 True)" by code_simp
  have v: "isValid (getFrameId (frame 5 True))" by code_simp
  have c: "current (mTimeline ?h) = 0" by code_simp
  have i: "getTimelineIndex (getFrameId (frame 5 True)) - 1 = 4" by code_simp
  from completeFlip_valid_releases_previous[of ?h "frame 5 True"] p v
  obtain h' where "completeFlip ?h = Inr h'"
    "current (mTimeline h') = max (current (mTimeline ?h)) (getTimelineIndex (getFrameId (frame 5 True)) - 1)"
    by blast
  then have "releasedPoint (completeFlip ?h) = Some 4"
    by (simp add: releasedPoint_def c i)
  with p v show ?thesis by simp
qed

text \<open>
  Claim C1 as stated fails twice. Frame 5 fails to issue and is retired at its own index 5; a
  repeated frame on index 5 is then flipped, and at its completion the released point is 5,
  not 4, so the flipped frame is already released. And a frame that was not released at its
  completion need not stay so until it is superseded: frame 5 is flipped and completed, then
  the flip of frame 6 fails to issue and retires index 6, which leaves the released point at
  6 with frame 5 still the current frame and nothing pending.
\<close>

theorem completeFlip_exactly_index_minus_1_counterexample:
  "mpLastFlippedFrame (projr (run exampleBuild repeatAfterFailure exampleHandler)) = Some (frame 5 True)
   \<and> isValid (getFrameId (frame 5 True))
   \<and> releasedPoint (completeFlip (projr (run exampleBuild repeatAfterFailure exampleHandler))) = Some 5
   \<and> getTimelineIndex (getFrameId (frame 5 True)) - 1 = 4
   \<and> releasedPoint (run exampleBuild (take 3 failureAfterCompletion) exampleHandler) = Some 4
   \<and> releasedPoint (run exampleBuild failureAfterCompletion exampleHandler) = Some 6
   \<and> mpCurrentFrame (projr (run exampleBuild failureAfterCompletion exampleHandler))
        = Some (frame 5 True)
   \<and> mpLastFlippedFrame (projr (run exampleBuild failureAfterCompletion exampleHandler)) = None"
  by code_simp

lemma minus_one_u32: "(- 1 :: u32) = 4294967295"
  by code_simp

lemma word_between_pred:
  fixes c i :: u32
  assumes "i - 1 \<le> c" "c < i"
  shows "c = i - 1"
proof -
  from assms(2) have lt: "unat c < unat i" by (simp add: word_less_nat_alt)
  then have "i \<noteq> 0" by auto
  then have "unat (i - 1) = unat i - 1" by (simp add: unat_minus_one)
  moreover from assms(1) have "unat (i - 1) \<le> unat c" by (simp add: word_le_nat_alt)
  ultimately have "unat c = unat (i - 1)" using lt by simp
  then show ?thesis by (simp add: word_unat_eq_iff)
qed

lemma retirePreviousFrames_synthetic:
  assumes inv: "currentFrameReleased h" and syn: "\<not> isValid (getFrameId f)"
  shows "mTimeline (retirePreviousFrames h f) = retireSyntheticSpec (mpCurrentFrame h) (mTimeline h)"
proof (cases "mpCurrentFrame h")
  case None
  with syn show ?thesis by (simp add: retirePreviousFrames_def retireSyntheticSpec_def)
next
  case (Some cur)
  let ?i = "getTimelineIndex (getFrameId cur)"
  let ?c = "current (mTimeline h)"
  show ?thesis
  proof (cases "isValid (getFrameId cur)")
    case False
    with syn Some show ?thesis by (simp add: retirePreviousFrames_def retireSyntheticSpec_def)
  next
    case True
    with inv Some have rel: "?i - 1 \<le> ?c" by (simp add: currentFrameReleased_def)
    have adv: "advance (mTimeline h) (?i - ?c) = (mTimeline h)\<lparr>current := max ?c ?i\<rparr>"
      by (simp add: advance_def advanceTo_def)
    show ?thesis
    proof (cases "?c < ?i")
      case ahead: True
      from word_between_pred[OF rel ahead] have "?i - ?c = 1" by simp
      then have "0 < sint (?i - ?c)" by simp
      with syn Some True ahead adv show ?thesis
        by (simp add: retirePreviousFrames_def retireSyntheticSpec_def getCurrentTime_def
                      Let_def max_def)
    next
      case False
      then have "max ?c ?i = ?c" by (simp add: max_def)
      with adv have "advance (mTimeline h) (?i - ?c) = mTimeline h" by simp
      with syn Some True False show ?thesis
        by (simp add: retirePreviousFrames_def retireSyntheticSpec_def getCurrentTime_def Let_def)
    qed
  qed
qed

text \<open>
  Claim C2. On a handler reached from the constructor, when the flip to a frame with an
  invalid id completes, the released point does not go back, and the timeline is the one the
  rule of the specification gives: advanced to exactly the index of the previously current
  frame when that frame has a valid id and its index is strictly ahead of the released point,
  unchanged otherwise.
\<close>

theorem completeFlip_synthetic_never_regresses:
  assumes reach: "run b cs (constructed d t opts) = Inr h"
      and pend: "mpLastFlippedFrame h = Some f"
      and syn: "\<not> isValid (getFrameId f)"
  shows "\<exists>h'. completeFlip h = Inr h'
           \<and> mTimeline h' = mTimeline (retirePreviousFrames h f)
           \<and> current (mTimeline h) \<le> current (mTimeline h')
           \<and> mTimeline h' = retireSyntheticSpec (mpCurrentFrame h) (mTimeline h)"
proof -
  from completeFlip_Inr[OF pend] obtain h' where h':
    "completeFlip h = Inr h'" "mTimeline h' = mTimeline (retirePreviousFrames h f)"
    by blast
  from reachable_currentFrameReleased[OF reach] have "currentFrameReleased h" .
  from retirePreviousFrames_synthetic[OF this syn] h' completeFlip_mono[OF h'(1)]
  show ?thesis by simp
qed

lemma syntheticBetween_state:
  "run exampleBuild (take 4 syntheticBetween) (constructed exampleDisplay \<lparr>current = 0, future = 0\<rparr> [(''planealloc'', 1)])
     = Inr (projr (run exampleBuild (take 4 syntheticBetween) exampleHandler))"
  by code_simp

theorem completeFlip_synthetic_never_regresses_witness:
  "mpLastFlippedFrame (projr (run exampleBuild (take 4 syntheticBetween) exampleHandler))
      = Some (frame 0 False)
   \<and> \<not> isValid (getFrameId (frame 0 False))
   \<and> mpCurrentFrame (projr (run exampleBuild (take 4 syntheticBetween) exampleHandler))
      = Some (frame 5 True)
   \<and> releasedPoint (Inr (projr (run exampleBuild (take 4 syntheticBetween) exampleHandler))) = Some 4
   \<and> releasedPoint (completeFlip (projr (run exampleBuild (take 4 syntheticBetween) exampleHandler)))
      = Some 5"
proof -
  let ?h = "projr (run exampleBuild (take 4 syntheticBetween) exampleHandler)"
  have p: "mpLastFlippedFrame ?h = Some (frame 0 False)" by code_simp
  have v: "\<not> isValid (getFrameId (frame 0 False))" by code_simp
  have c: "mpCurrentFrame ?h = Some (frame 5 True)" by code_simp
  have t: "mTimeline ?h = \<lparr>current = 4, future = 0\<rparr>" by code_simp
  have s: "retireSyntheticSpec (Some (frame 5 True)) \<lparr>current = 4, future = 0\<rparr>
             = \<lparr>current = 5, future = 0\<rparr>" by code_simp
  from completeFlip_synthetic_never_regresses[OF syntheticBetween_state p v]
  obtain h' where "completeFlip ?h = Inr h'"
    "mTimeline h' = retireSyntheticSpec (mpCurrentFrame ?h) (mTimeline ?h)"
    by blast
  then have "releasedPoint (completeFlip ?h) = Some 5"
    by (simp add: releasedPoint_def c t s)
  with p v c t show ?thesis by (simp add: releasedPoint_def)
qed

text \<open>
  Claim C3. Whatever the sequence of calls (init, uninit, the fence registrations, releaseTo,
  readyForFlip, flip, retire, pageFlipEvent, sync, completeFlip) and whatever the handler it
  starts from, the released point after the sequence is not below the released point before.
\<close>

theorem timeline_current_never_decreases:
  "run b cs h = Inr h' \<Longrightarrow> current (mTimeline h) \<le> current (mTimeline h')"
  by (rule run_mono)

theorem timeline_current_never_decreases_witness:
  "run exampleBuild (drop 3 syntheticBetween) (projr (run exampleBuild (take 3 syntheticBetween) exampleHandler))
     = Inr (projr (run exampleBuild syntheticBetween exampleHandler))
   \<and> current (mTimeline (projr (run exampleBuild (take 3 syntheticBetween) exampleHandler))) = 4
   \<and> current (mTimeline (projr (run exampleBuild syntheticBetween exampleHandler))) = 5
   \<and> (4 :: u32) \<le> 5"
proof -
  let ?h = "projr (run exampleBuild (take 3 syntheticBetween) exampleHandler)"
  let ?h' = "projr (run exampleBuild syntheticBetween exampleHandler)"
  have r: "run exampleBuild (drop 3 syntheticBetween) ?h = Inr ?h'" by code_simp
  have a: "current (mTimeline ?h) = 4" by code_simp
  have b: "current (mTimeline ?h') = 5" by code_simp
  from timeline_current_never_decreases[OF r] a b show ?thesis using r by simp
qed

text \<open>
  Claim C10. For a frame with a valid id and timeline index 0, \<open>retirePreviousFrames\<close>
  computes the release point 0 - 1 in 32-bit unsigned arithmetic and asks the timeline to
  advance to 4294967295; for any other index the release point is the index minus one, which
  is below the index.
\<close>

theorem retirePreviousFrames_index_zero_wraps:
  assumes "isValid (getFrameId f)"
  shows "(getTimelineIndex (getFrameId f) = 0 \<longrightarrow>
            getTimelineIndex (getFrameId f) - 1 = 4294967295
            \<and> retirePreviousFrames h f = h\<lparr>mTimeline := advanceTo (mTimeline h) 4294967295\<rparr>
            \<and> current (mTimeline (retirePreviousFrames h f)) = 4294967295)
       \<and> (getTimelineIndex (getFrameId f) \<noteq> 0 \<longrightarrow>
            retirePreviousFrames h f
              = h\<lparr>mTimeline := advanceTo (mTimeline h) (getTimelineIndex (getFrameId f) - 1)\<rparr>
            \<and> unat (getTimelineIndex (getFrameId f) - 1) = unat (getTimelineIndex (getFrameId f)) - 1
            \<and> getTimelineIndex (getFrameId f) - 1 < getTimelineIndex (getFrameId f))"
proof (intro conjI impI)
  assume z: "getTimelineIndex (getFrameId f) = 0"
  have m: "max c (- 1) = (- 1 :: u32)" for c by (simp add: max_def word_order.extremum_unique)
  show "getTimelineIndex (getFrameId f) - 1 = 4294967295"
    using z by simp
  show "retirePreviousFrames h f = h\<lparr>mTimeline := advanceTo (mTimeline h) 4294967295\<rparr>"
    using assms z by (simp add: retirePreviousFrames_valid minus_one_u32[symmetric])
  show "current (mTimeline (retirePreviousFrames h f)) = 4294967295"
    using assms z m by (simp add: retirePreviousFrames_valid advanceTo_def minus_one_u32[symmetric])
next
  assume nz: "getTimelineIndex (getFrameId f) \<noteq> 0"
  show "retirePreviousFrames h f
          = h\<lparr>mTimeline := advanceTo (mTimeline h) (getTimelineIndex (getFrameId f) - 1)\<rparr>"
    using assms by (simp add: retirePreviousFrames_valid)
  show "unat (getTimelineIndex (getFrameId f) - 1) = unat (getTimelineIndex (getFrameId f)) - 1"
    using nz by (simp add: unat_minus_one)
  show "getTimelineIndex (getFrameId f) - 1 < getTimelineIndex (getFrameId f)"
    using nz by (simp add: word_less_nat_alt unat_minus_one unat_gt_0)
qed

theorem retirePreviousFrames_index_zero_wraps_witness:
  "isValid (getFrameId (frame 0 True))
   \<and> getTimelineIndex (getFrameId (frame 0 True)) = 0
   \<and> current (mTimeline (retirePreviousFrames exampleHandler (frame 0 True))) = 4294967295
   \<and> isValid (getFrameId (frame 5 True))
   \<and> getTimelineIndex (getFrameId (frame 5 True)) \<noteq> 0
   \<and> unat (getTimelineIndex (getFrameId (frame 5 True)) - 1) = 4"
proof -
  have v0: "isValid (getFrameId (frame 0 True))" by code_simp
  have i0: "getTimelineIndex (getFrameId (frame 0 True)) = 0" by code_simp
  have v5: "isValid (getFrameId (frame 5 True))" by code_simp
  have i5: "getTimelineIndex (getFrameId (frame 5 True)) = 5" by code_simp
  from retirePreviousFrames_index_zero_wraps[OF v0, of exampleHandler] i0
  have a: "current (mTimeline (retirePreviousFrames exampleHandler (frame 0 True))) = 4294967295"
    by blast
  from retirePreviousFrames_index_zero_wraps[OF v5, of exampleHandler] i5
  have b: "unat (getTimelineIndex (getFrameId (frame 5 True)) - 1) = 4"
    by simp
  from v0 i0 a v5 i5 b show ?thesis by simp
qed

lemma pageFlipEvent_config:
  "pageFlipEvent h = Inr h' \<Longrightarrow> mLastPageFlipTime h' = mLastPageFlipTime h"
  using completeFlip_Inr[of h]
  by (auto simp: pageFlipEvent_def ETRACE_fields isOutstandingFlipWork_def split: if_splits)

lemma waitLoop_config:
  "waitLoop ws h = Inr (ok, h') \<Longrightarrow> mLastPageFlipTime h' = mLastPageFlipTime h"
proof (induction ws arbitrary: h)
  case Nil
  then show ?case by (auto split: if_splits)
next
  case (Cons w ws)
  obtain ev err where w: "w = (ev, err)" by (cases w)
  show ?case
  proof (cases "isOutstandingFlipWork h")
    case False
    with Cons.prems w show ?thesis by auto
  next
    case True
    show ?thesis
    proof (cases "if ev then pageFlipEvent h else Inr h")
      case (Inl e)
      with Cons.prems w True show ?thesis by simp
    next
      case (Inr h1)
      then have i1: "mLastPageFlipTime h1 = mLastPageFlipTime h"
        by (auto dest: pageFlipEvent_config split: if_splits)
      show ?thesis
      proof (cases "err = TIMED_OUT")
        case True
        with Cons.prems w \<open>isOutstandingFlipWork h\<close> Inr i1 show ?thesis
          by (auto simp: ETRACE_fields)
      next
        case False
        with Cons.prems w \<open>isOutstandingFlipWork h\<close> Inr
        have "waitLoop ws h1 = Inr (ok, h')" by simp
        from Cons.IH[OF this] i1 show ?thesis by simp
      qed
    qed
  qed
qed

lemma doSync_config:
  assumes "doSync b ws h = Inr h'"
  shows "mLastPageFlipTime h' = mLastPageFlipTime h"
proof (cases "isOutstandingFlipWork h")
  case False
  with assms show ?thesis by (simp add: doSync_def)
next
  case True
  with assms obtain ok h1 where w: "waitForFlipCompletion b ws h = Inr (ok, h1)"
    by (auto simp: doSync_def split: sum.splits)
  then have c1: "mLastPageFlipTime h1 = mLastPageFlipTime h"
    by (auto simp: waitForFlipCompletion_def dest: waitLoop_config split: if_splits)
  show ?thesis
  proof (cases "\<not> ok \<and> isOutstandingFlipWork h1")
    case False
    with assms True w have "h' = h1" by (auto simp: doSync_def split: if_splits)
    with c1 show ?thesis by simp
  next
    case forced: True
    then obtain f where f: "mpLastFlippedFrame h1 = Some f"
      by (auto simp: isOutstandingFlipWork_def)
    with assms \<open>isOutstandingFlipWork h\<close> w forced
    have c: "completeFlip (ETRACE (ForcingFlipCompletion (getFrameId f)) h1) = Inr h'"
      by (simp add: doSync_def)
    from f have "mpLastFlippedFrame (ETRACE (ForcingFlipCompletion (getFrameId f)) h1) = Some f"
      by (simp add: ETRACE_fields)
    from completeFlip_Inr[OF this] c c1 show ?thesis by (auto simp: ETRACE_fields)
  qed
qed


lemma flip_initialised:
  assumes "uncomment b" "mbInit h" "primeMain h f = (d, f', pMain, bl)"
  shows "flip b ws r now h f =
           (case flipSynced b ws h f of
              Inl e \<Rightarrow> Inl e
            | Inr h1 \<Rightarrow>
                Inr (fst (flipIssue r now pMain (mMainPlaneIndex h) f' h1),
                     if \<not> fst (flipIssue r now pMain (mMainPlaneIndex h) f' h1)
                     then doRetire (snd (flipIssue r now pMain (mMainPlaneIndex h) f' h1)) f'
                     else snd (flipIssue r now pMain (mMainPlaneIndex h) f' h1)))"
proof (cases "flipSynced b ws h f")
  case (Inl e)
  with assms show ?thesis by (simp add: flip_def)
next
  case (Inr h1)
  with assms show ?thesis
    by (cases "flipIssue r now pMain (mMainPlaneIndex h) f' h1") (simp add: flip_def)
qed

lemma flip_uninitialised:
  "uncomment b \<Longrightarrow> \<not> mbInit h \<Longrightarrow> flip b ws r now h f = Inr (False, doRetire h f)"
  by (simp add: flip_def)

lemma flipIssue_fields:
  "fst (flipIssue r now pMain i f h1) = (mpImpl h1 \<noteq> None \<and> r)"
  "mTimeline (snd (flipIssue r now pMain i f h1)) = mTimeline h1"
  "mpLastFlippedFrame (snd (flipIssue r now pMain i f h1))
     = (if mpImpl h1 \<noteq> None \<and> r then Some f else mpLastFlippedFrame h1)"
  "mLastPageFlipTime (snd (flipIssue r now pMain i f h1))
     = (if mpImpl h1 \<noteq> None \<and> r then now else mLastPageFlipTime h1)"
  by (auto simp: flipIssue_def Let_def split: option.splits)

lemma flipSynced_returns:
  assumes "uncomment b" "mbInit h" "\<not> isOutstandingFlipWork h \<or> waitEnds ws"
  shows "\<exists>h1. flipSynced b ws h f = Inr h1"
proof -
  obtain d f' pMain bl where pm: "primeMain h f = (d, f', pMain, bl)"
    by (cases "primeMain h f") auto
  have "mbInit (h\<lparr>mDisplay := d\<rparr>)" using assms(2) by simp
  moreover have "waitEnds ws \<or> \<not> isOutstandingFlipWork (h\<lparr>mDisplay := d\<rparr>)"
    using assms(3) by (auto simp: isOutstandingFlipWork_def)
  ultimately obtain h1 where "doSync b ws (h\<lparr>mDisplay := d\<rparr>) = Inr h1"
    using doSync_returns[OF assms(1)] by blast
  with pm show ?thesis by (simp add: flipSynced_def)
qed

lemma flipSynced_config:
  "flipSynced b ws h f = Inr h1 \<Longrightarrow> mLastPageFlipTime h1 = mLastPageFlipTime h"
  by (auto simp: flipSynced_def dest!: doSync_config split: prod.splits)

lemma retirePreviousFrames_etrace:
  "retirePreviousFrames (h\<lparr>etrace := tr\<rparr>) f = (retirePreviousFrames h f)\<lparr>etrace := tr\<rparr>"
  by (simp add: retirePreviousFrames_def Let_def split: option.splits)









text \<open>
  Claim C7. In the build that has \<open>flip\<close>: when the handler is not initialised, or the
  strategy reports that the commit was not issued, \<open>flip\<close> returns false and has retired the
  frame by advancing the timeline to the frame's own index (so that index is released);
  it has recorded no pending frame and no flip time. On an uninitialised handler the result
  is exactly \<open>doRetire\<close> of the handler.
\<close>

theorem flip_failure_retires_frame:
  assumes "uncomment b"
      and "\<not> mbInit h \<or> \<not> r"
      and "\<not> mbInit h \<or> \<not> isOutstandingFlipWork h \<or> waitEnds ws"
  shows "\<exists>h'. flip b ws r now h f = Inr (False, h')
           \<and> (\<not> mbInit h \<longrightarrow> h' = doRetire h f)
           \<and> (mbInit h \<longrightarrow>
                 (\<exists>h1. flipSynced b ws h f = Inr h1
                    \<and> mTimeline h' = advanceTo (mTimeline h1) (getTimelineIndex (getFrameId f)))
                 \<and> mpLastFlippedFrame h' = None)
           \<and> (\<not> mbInit h \<longrightarrow>
                 mTimeline h' = advanceTo (mTimeline h) (getTimelineIndex (getFrameId f))
                 \<and> mpLastFlippedFrame h' = mpLastFlippedFrame h)
           \<and> getTimelineIndex (getFrameId f) \<le> current (mTimeline h')
           \<and> mLastPageFlipTime h' = mLastPageFlipTime h"
proof (cases "mbInit h")
  case False
  have "getTimelineIndex (getFrameId f) \<le> current (mTimeline (doRetire h f))"
    by (simp add: doRetire_fields advanceTo_def)
  with False flip_uninitialised[OF assms(1) False, of ws r now f] show ?thesis
    by (simp add: doRetire_fields)
next
  case True
  with assms(2,3) have nr: "\<not> r" and w: "\<not> isOutstandingFlipWork h \<or> waitEnds ws" by auto
  from flipSynced_returns[OF assms(1) True w] obtain h1 where s: "flipSynced b ws h f = Inr h1" ..
  obtain d f' pMain bl where pm: "primeMain h f = (d, f', pMain, bl)"
    by (cases "primeMain h f") auto
  let ?h3 = "snd (flipIssue r now pMain (mMainPlaneIndex h) f' h1)"
  from flip_initialised[OF assms(1) True pm, of ws r now] s nr
  have fl: "flip b ws r now h f = Inr (False, doRetire ?h3 f')"
    by (simp add: flipIssue_fields)
  from flipSynced_post[OF s] assms(1) have "mpLastFlippedFrame h1 = None"
    by (simp add: isOutstandingFlipWork_def)
  with nr have p: "mpLastFlippedFrame (doRetire ?h3 f') = None"
    by (simp add: doRetire_fields flipIssue_fields)
  from primeMain_frameId[OF pm]
  have t: "mTimeline (doRetire ?h3 f') = advanceTo (mTimeline h1) (getTimelineIndex (getFrameId f))"
    by (simp add: doRetire_fields flipIssue_fields)
  then have le: "getTimelineIndex (getFrameId f) \<le> current (mTimeline (doRetire ?h3 f'))"
    by (simp add: advanceTo_def)
  from nr flipSynced_config[OF s]
  have l: "mLastPageFlipTime (doRetire ?h3 f') = mLastPageFlipTime h"
    by (simp add: doRetire_fields flipIssue_fields)
  from True fl s p t le l show ?thesis by simp
qed


theorem flip_failure_retires_frame_witness:
  "uncomment exampleBuild \<and> \<not> mbInit exampleHandler
   \<and> flip exampleBuild [] True 200 exampleHandler (frame 6 True)
       = Inr (False, doRetire exampleHandler (frame 6 True))
   \<and> current (mTimeline (doRetire exampleHandler (frame 6 True))) = 6
   \<and> mbInit afterFlip5 \<and> waitEnds [(False, TIMED_OUT)]
   \<and> releasedPoint (map_sum id snd (flip exampleBuild [(False, TIMED_OUT)] False 200 afterFlip5 (frame 6 True)))
       = Some 6"
proof -
  have u: "uncomment exampleBuild" by code_simp
  have n: "\<not> mbInit exampleHandler" by code_simp
  have i: "mbInit afterFlip5" by code_simp
  have e: "waitEnds [(False, TIMED_OUT)]" by code_simp
  have c: "current (mTimeline (doRetire exampleHandler (frame 6 True))) = 6" by code_simp
  from flip_failure_retires_frame[OF u, of exampleHandler True "[]" 200 "frame 6 True"] n
  have a: "flip exampleBuild [] True 200 exampleHandler (frame 6 True)
             = Inr (False, doRetire exampleHandler (frame 6 True))"
    by auto
  from flip_failure_retires_frame[OF u, of afterFlip5 False "[(False, TIMED_OUT)]" 200 "frame 6 True"] e
  obtain h' where f: "flip exampleBuild [(False, TIMED_OUT)] False 200 afterFlip5 (frame 6 True) = Inr (False, h')"
    by auto
  have "releasedPoint (map_sum id snd (flip exampleBuild [(False, TIMED_OUT)] False 200 afterFlip5 (frame 6 True)))
       = Some 6" by code_simp
  with u n a c i e show ?thesis by blast
qed





text \<open>
  In the build without \<open>uncomment\<close> the wait loop is compiled out: \<open>waitForFlipCompletion\<close>
  returns true at once and \<open>sync\<close> leaves the handler as it is. That build has no \<open>flip\<close>, so
  no frame is ever pending in it.
\<close>

lemma sync_without_wait_loop: "\<not> uncomment b \<Longrightarrow> sync b ws h = Inr h"
  by (simp add: sync_def doSync_def waitForFlipCompletion_def)

text \<open>
  Claim C8. \<open>pageFlipEvent\<close> on an uninitialised handler, or on one with no outstanding flip
  work, returns the handler with one error message appended to the log and nothing else
  changed; otherwise it is \<open>completeFlip\<close>, which succeeds and leaves nothing outstanding.
\<close>

theorem pageFlipEvent_ignores_unexpected_events:
  "(\<not> mbInit h \<longrightarrow>
      pageFlipEvent h = Inr (h\<lparr>etrace := etrace h @ [UnexpectedNotInitialised]\<rparr>))
   \<and> (mbInit h \<and> \<not> isOutstandingFlipWork h \<longrightarrow>
      pageFlipEvent h = Inr (h\<lparr>etrace := etrace h @ [UnexpectedNoOutstandingFlip]\<rparr>))
   \<and> (mbInit h \<and> isOutstandingFlipWork h \<longrightarrow>
      pageFlipEvent h = completeFlip h
      \<and> (\<exists>h'. completeFlip h = Inr h' \<and> \<not> isOutstandingFlipWork h'
             \<and> mpCurrentFrame h' = mpLastFlippedFrame h))"
proof (intro conjI impI)
  assume "\<not> mbInit h"
  then show "pageFlipEvent h = Inr (h\<lparr>etrace := etrace h @ [UnexpectedNotInitialised]\<rparr>)"
    by (simp add: pageFlipEvent_def ETRACE_def)
next
  assume "mbInit h \<and> \<not> isOutstandingFlipWork h"
  then show "pageFlipEvent h = Inr (h\<lparr>etrace := etrace h @ [UnexpectedNoOutstandingFlip]\<rparr>)"
    by (simp add: pageFlipEvent_def ETRACE_def)
next
  assume a: "mbInit h \<and> isOutstandingFlipWork h"
  then show "pageFlipEvent h = completeFlip h" by (simp add: pageFlipEvent_def)
  from a obtain f where "mpLastFlippedFrame h = Some f"
    by (auto simp: isOutstandingFlipWork_def)
  from completeFlip_Inr[OF this] this
  show "\<exists>h'. completeFlip h = Inr h' \<and> \<not> isOutstandingFlipWork h'
          \<and> mpCurrentFrame h' = mpLastFlippedFrame h"
    by (auto simp: isOutstandingFlipWork_def)
qed

theorem pageFlipEvent_ignores_unexpected_events_witness:
  "\<not> mbInit exampleHandler
   \<and> pageFlipEvent exampleHandler = Inr (exampleHandler\<lparr>etrace := [UnexpectedNotInitialised]\<rparr>)
   \<and> mbInit (init exampleBuild exampleHandler)
   \<and> \<not> isOutstandingFlipWork (init exampleBuild exampleHandler)
   \<and> pageFlipEvent (init exampleBuild exampleHandler)
       = Inr (init exampleBuild exampleHandler\<lparr>etrace := [UnexpectedNoOutstandingFlip]\<rparr>)
   \<and> mbInit afterFlip5 \<and> isOutstandingFlipWork afterFlip5
   \<and> pageFlipEvent afterFlip5 = completeFlip afterFlip5"
proof -
  have n: "\<not> mbInit exampleHandler" by code_simp
  have e0: "etrace exampleHandler = []" by code_simp
  have i: "mbInit (init exampleBuild exampleHandler)" by code_simp
  have o: "\<not> isOutstandingFlipWork (init exampleBuild exampleHandler)" by code_simp
  have e1: "etrace (init exampleBuild exampleHandler) = []" by code_simp
  have i5: "mbInit afterFlip5" by code_simp
  have o5: "isOutstandingFlipWork afterFlip5" by code_simp
  from pageFlipEvent_ignores_unexpected_events[of exampleHandler] n e0
  have a: "pageFlipEvent exampleHandler = Inr (exampleHandler\<lparr>etrace := [UnexpectedNotInitialised]\<rparr>)"
    by simp
  from pageFlipEvent_ignores_unexpected_events[of "init exampleBuild exampleHandler"] i o e1
  have b: "pageFlipEvent (init exampleBuild exampleHandler)
       = Inr (init exampleBuild exampleHandler\<lparr>etrace := [UnexpectedNoOutstandingFlip]\<rparr>)"
    by simp
  from pageFlipEvent_ignores_unexpected_events[of afterFlip5] i5 o5
  have c: "pageFlipEvent afterFlip5 = completeFlip afterFlip5" by blast
  from n a i o b i5 o5 c show ?thesis by blast
qed

lemma optionFind_optionSet:
  "optionFind (optionSet opts name v) name = map_option (\<lambda>_. v) (optionFind opts name)"
  by (induction opts) (auto simp: optionFind_def optionSet_def)

lemma init_initialised: "mbInit h \<Longrightarrow> init b h = h"
  by (simp add: init_def)

lemma init_legacy:
  assumes "\<not> mbInit h"
      and "\<not> (HWC_USE_ATOMIC_NUCLEAR b \<and> nuclearTest (mDisplay h))"
      and "\<not> (VPG_DRM_HAVE_ATOMIC_SETDISPLAY b \<and> setDisplayTest (mDisplay h))"
  shows "mpImpl (init b h) = Some DrmLegacyPageFlipHandler"
    and "options (init b h) = (if optionFind (options h) ''planealloc'' \<noteq> None
                                then optionSet (options h) ''planealloc'' 0 else options h)"
  using assms by (auto simp: init_def Let_def)

lemma readyForFlip_idle:
  "\<not> isOutstandingFlipWork h \<Longrightarrow> readyForFlip b now h = Inr (True, h)"
  by (simp add: readyForFlip_def)

text \<open>
  Claim C9. On a handler reached from the constructor: \<open>init\<close> on an initialised handler
  returns it unchanged, so a second \<open>init\<close> changes nothing; on an uninitialised handler
  whose nuclear and set-display probes are compiled out or fail, \<open>init\<close> binds the legacy
  strategy, leaves the option \<open>planealloc\<close> (when the option manager has it) at 0, and a
  following \<open>readyForFlip\<close> returns true.
\<close>

theorem init_falls_back_to_legacy:
  assumes reach: "run b cs (constructed d t opts) = Inr h"
  shows "(mbInit h \<longrightarrow> init b h = h)
       \<and> init b (init b h) = init b h
       \<and> (\<not> mbInit h
            \<and> \<not> (HWC_USE_ATOMIC_NUCLEAR b \<and> nuclearTest (mDisplay h))
            \<and> \<not> (VPG_DRM_HAVE_ATOMIC_SETDISPLAY b \<and> setDisplayTest (mDisplay h)) \<longrightarrow>
              mpImpl (init b h) = Some DrmLegacyPageFlipHandler
            \<and> mbInit (init b h)
            \<and> optionFind (options (init b h)) ''planealloc''
                 = map_option (\<lambda>_. 0) (optionFind (options h) ''planealloc'')
            \<and> readyForFlip b now (init b h) = Inr (True, init b h))"
proof (intro conjI impI)
  assume "mbInit h"
  then show "init b h = h" by (rule init_initialised)
next
  show "init b (init b h) = init b h"
    by (rule init_initialised) (rule init_pending)
next
  assume a: "\<not> mbInit h
            \<and> \<not> (HWC_USE_ATOMIC_NUCLEAR b \<and> nuclearTest (mDisplay h))
            \<and> \<not> (VPG_DRM_HAVE_ATOMIC_SETDISPLAY b \<and> setDisplayTest (mDisplay h))"
  then have n: "\<not> mbInit h"
    and p1: "\<not> (HWC_USE_ATOMIC_NUCLEAR b \<and> nuclearTest (mDisplay h))"
    and p2: "\<not> (VPG_DRM_HAVE_ATOMIC_SETDISPLAY b \<and> setDisplayTest (mDisplay h))"
    by simp_all
  show "mpImpl (init b h) = Some DrmLegacyPageFlipHandler"
    by (rule init_legacy(1)[OF n p1 p2])
  show "mbInit (init b h)" by (rule init_pending)
  show "optionFind (options (init b h)) ''planealloc''
          = map_option (\<lambda>_. 0) (optionFind (options h) ''planealloc'')"
    by (cases "optionFind (options h) ''planealloc''")
       (simp_all add: init_legacy(2)[OF n p1 p2] optionFind_optionSet)
  from reachable_pendingAllowed[OF reach] n have "\<not> isOutstandingFlipWork h"
    by (auto simp: pendingAllowed_def)
  then have "\<not> isOutstandingFlipWork (init b h)" by (simp add: init_pending)
  then show "readyForFlip b now (init b h) = Inr (True, init b h)"
    by (rule readyForFlip_idle)
qed

lemma exampleHandler_reached:
  "run exampleBuild [] (constructed exampleDisplay \<lparr>current = 0, future = 0\<rparr> [(''planealloc'', 1)])
     = Inr exampleHandler"
  by (simp add: exampleHandler_def)

theorem init_falls_back_to_legacy_witness:
  "\<not> mbInit exampleHandler
   \<and> \<not> (HWC_USE_ATOMIC_NUCLEAR exampleBuild \<and> nuclearTest (mDisplay exampleHandler))
   \<and> \<not> (VPG_DRM_HAVE_ATOMIC_SETDISPLAY exampleBuild \<and> setDisplayTest (mDisplay exampleHandler))
   \<and> optionFind (options exampleHandler) ''planealloc'' = Some 1
   \<and> mpImpl (init exampleBuild exampleHandler) = Some DrmLegacyPageFlipHandler
   \<and> optionFind (options (init exampleBuild exampleHandler)) ''planealloc'' = Some 0
   \<and> readyForFlip exampleBuild 0 (init exampleBuild exampleHandler)
       = Inr (True, init exampleBuild exampleHandler)
   \<and> mbInit (init exampleBuild exampleHandler)
   \<and> init exampleBuild (init exampleBuild exampleHandler) = init exampleBuild exampleHandler"
proof -
  have n: "\<not> mbInit exampleHandler" by code_simp
  have p1: "\<not> (HWC_USE_ATOMIC_NUCLEAR exampleBuild \<and> nuclearTest (mDisplay exampleHandler))"
    by code_simp
  have p2: "\<not> (VPG_DRM_HAVE_ATOMIC_SETDISPLAY exampleBuild \<and> setDisplayTest (mDisplay exampleHandler))"
    by code_simp
  have o: "optionFind (options exampleHandler) ''planealloc'' = Some 1" by code_simp
  note t = init_falls_back_to_legacy[OF exampleHandler_reached, of 0]
  from t n p1 p2 have a: "mpImpl (init exampleBuild exampleHandler) = Some DrmLegacyPageFlipHandler"
    and b: "optionFind (options (init exampleBuild exampleHandler)) ''planealloc''
              = map_option (\<lambda>_. 0) (optionFind (options exampleHandler) ''planealloc'')"
    and c: "readyForFlip exampleBuild 0 (init exampleBuild exampleHandler)
              = Inr (True, init exampleBuild exampleHandler)"
    and d: "mbInit (init exampleBuild exampleHandler)"
    by blast+
  from t have e: "init exampleBuild (init exampleBuild exampleHandler) = init exampleBuild exampleHandler"
    by blast
  from b o have b': "optionFind (options (init exampleBuild exampleHandler)) ''planealloc'' = Some 0"
    by simp
  from n p1 p2 o a b' c d e show ?thesis by blast
qed

text \<open>
  What \<open>readyForFlip\<close> does right: its result is true exactly when nothing is outstanding
  afterwards, and when work is outstanding and \<open>ela\<close> exceeds the timeout it logs the error,
  completes the flip and returns true.
\<close>

lemma readyForFlip_result:
  "readyForFlip b now h = Inr (r, h') \<Longrightarrow> r = (\<not> isOutstandingFlipWork h')"
  by (drule readyForFlip_pending) simp

lemma readyForFlip_timeout:
  assumes "isOutstandingFlipWork h"
      and "mTimeoutFlip b < ucast (now - mLastPageFlipTime h)"
  shows "\<exists>h'. readyForFlip b now h = Inr (True, h') \<and> \<not> isOutstandingFlipWork h'
           \<and> etrace h' = etrace h @ [FlipCompletionTimeout]
           \<and> mpCurrentFrame h' = mpLastFlippedFrame h"
proof -
  from assms(1) obtain f where f: "mpLastFlippedFrame h = Some f"
    by (auto simp: isOutstandingFlipWork_def)
  then have "mpLastFlippedFrame (ETRACE FlipCompletionTimeout h) = Some f"
    by (simp add: ETRACE_fields)
  from completeFlip_Inr[OF this] obtain h' where
    "completeFlip (ETRACE FlipCompletionTimeout h) = Inr h'" "mpLastFlippedFrame h' = None"
    "mpCurrentFrame h' = Some f" "etrace h' = etrace (ETRACE FlipCompletionTimeout h)"
    by blast
  with assms f show ?thesis
    by (simp add: readyForFlip_def Let_def isOutstandingFlipWork_def ETRACE_def)
qed

text \<open>
  \<open>ela\<close> is the elapsed time cut to 32 bits: after exactly \<open>2 ^ 32\<close> nanoseconds it is 0,
  which exceeds no timeout, so \<open>readyForFlip\<close> completes nothing and returns false.
\<close>

lemma readyForFlip_elapsed_wraps:
  assumes "isOutstandingFlipWork h"
  shows "readyForFlip b (mLastPageFlipTime h + 2 ^ 32) h = Inr (False, h)"
proof -
  have d: "mLastPageFlipTime h + 2 ^ 32 - mLastPageFlipTime h = (2 :: nsecs_t) ^ 32" by simp
  have z: "(ucast ((2 :: nsecs_t) ^ 32) :: u32) = 0" by code_simp
  have n: "\<not> mTimeoutFlip b < 0" by simp
  show ?thesis unfolding readyForFlip_def Let_def d z using assms n by simp
qed

text \<open>
  Claim C6 at a failing input. Frame 5 was flipped at time 100 and its completion event is
  lost; the timeout is one second. \<open>readyForFlip\<close> called \<open>2 ^ 32\<close> nanoseconds (about 4.29
  seconds) after the flip computes \<open>ela = 0\<close>, forces nothing and returns false, with the
  commit still outstanding; called two seconds after the flip it forces completion.
\<close>

theorem readyForFlip_misses_timeout_after_wrap:
  "isOutstandingFlipWork afterFlip5
   \<and> mLastPageFlipTime afterFlip5 = 100
   \<and> mTimeoutFlip exampleBuild = 1000000000
   \<and> 4294967396 - mLastPageFlipTime afterFlip5 = 4294967296
   \<and> readyForFlip exampleBuild 4294967396 afterFlip5 = Inr (False, afterFlip5)
   \<and> map_sum id fst (readyForFlip exampleBuild 2000000100 afterFlip5) = Inr True"
proof -
  have a: "isOutstandingFlipWork afterFlip5" by code_simp
  have b: "mLastPageFlipTime afterFlip5 = 100" by code_simp
  have c: "mTimeoutFlip exampleBuild = 1000000000" by code_simp
  have d: "4294967396 - mLastPageFlipTime afterFlip5 = 4294967296" by code_simp
  have e: "readyForFlip exampleBuild 4294967396 afterFlip5 = Inr (False, afterFlip5)"
    by code_simp
  have f: "map_sum id fst (readyForFlip exampleBuild 2000000100 afterFlip5) = Inr True"
    by code_simp
  from a b c d e f show ?thesis by blast
qed

end
